theory Spec2Isabelle
  imports Complex_Main "HOL-Library.Word" "HOL-Library.Sublist"
begin

section \<open>The portal driver (class Dimensions of app/lego.py)\<close>

text \<open>
  Python exceptions that the modelled code can raise out of a function are values of
  \<open>py_error\<close>; a function that can raise returns \<open>py_error + 'a\<close>, with \<open>Inl\<close> the
  exception. Exceptions that the source catches itself are branches of the function
  that caught them and do not show in its result type.
\<close>

datatype py_error = AttributeError | KeyError | NameError | IndexError | ValueError

text \<open>
  The handle that \<open>usb.core.find\<close> returns. The driver keeps \<open>None\<close> in its place when
  discovery failed, so the field \<open>self.dev\<close> is a \<open>usb_dev option\<close>.
\<close>

datatype usb_dev = UsbDev

text \<open>What \<open>init_usb\<close> meets: no device, a USB error on the way, or a device that answers.\<close>

datatype usb_probe = DeviceNotFound | DeviceUSBError | DeviceReady usb_dev

datatype init_error = InitValueError | InitUSBError

definition init_usb :: "usb_probe \<Rightarrow> init_error + usb_dev" where
  "init_usb probe =
     (case probe of
        DeviceNotFound \<Rightarrow> Inl InitValueError
      | DeviceUSBError \<Rightarrow> Inl InitUSBError
      | DeviceReady dev \<Rightarrow> Inr dev)"

text \<open>\<open>Dimensions.__init__\<close>: both exceptions of \<open>init_usb\<close> are caught and leave \<open>dev = None\<close>.\<close>

definition dimensions_init :: "usb_probe \<Rightarrow> usb_dev option" where
  "dimensions_init probe =
     (case init_usb probe of Inl e \<Rightarrow> None | Inr dev \<Rightarrow> Some dev)"

text \<open>
  The checksum loop of \<open>send_command\<close>: Python integers, so \<open>int\<close>; one subtraction of
  256 after each addition, as the source has it.
\<close>

fun checksum_loop :: "int \<Rightarrow> int list \<Rightarrow> int" where
  "checksum_loop checksum [] = checksum"
| "checksum_loop checksum (word # command) =
     (let checksum = checksum + word
      in checksum_loop (if checksum \<ge> 256 then checksum - 256 else checksum) command)"

text \<open>\<open>while len(message) < 32: message.append(0x00)\<close>\<close>

function pad_message :: "int list \<Rightarrow> int list" where
  "pad_message message =
     (if length message < 32 then pad_message (message @ [0]) else message)"
  by pat_completeness auto
termination
  by (relation "measure (\<lambda>message. 32 - length message)") auto

declare pad_message.simps [simp del]

definition build_message :: "int list \<Rightarrow> int list" where
  "build_message command = pad_message (command @ [checksum_loop 0 command])"

text \<open>
  \<open>send_command\<close> returns the message it hands to \<open>self.dev.write(1, message)\<close>. A
  \<open>USBError\<close> raised by the write is caught and logged inside the function, so it is not
  a result; with \<open>self.dev = None\<close> the attribute access \<open>self.dev.write\<close> raises
  \<open>AttributeError\<close>, which the \<open>except usb.core.USBError\<close> clause does not catch.
\<close>

definition send_command :: "usb_dev option \<Rightarrow> int list \<Rightarrow> py_error + int list" where
  "send_command dev command =
     (let message = build_message command
      in case dev of None \<Rightarrow> Inl AttributeError | Some d \<Rightarrow> Inr message)"

type_synonym colour = "int list"

text \<open>
  The pad helpers index \<open>colour[0..2]\<close>; every caller passes one of the three-element
  palette entries, and the helpers are modelled on three-element colours.
\<close>

definition switch_pad :: "usb_dev option \<Rightarrow> int \<Rightarrow> colour \<Rightarrow> py_error + int list" where
  "switch_pad dev pad colour =
     send_command dev [0x55, 0x06, 0xc0, 0x02, pad, colour ! 0, colour ! 1, colour ! 2]"

definition fade_pad :: "usb_dev option \<Rightarrow> int \<Rightarrow> int \<Rightarrow> int \<Rightarrow> colour \<Rightarrow> py_error + int list" where
  "fade_pad dev pad pulse_time pulse_count colour =
     send_command dev [0x55, 0x08, 0xc2, 0x0f, pad, pulse_time, pulse_count,
                       colour ! 0, colour ! 1, colour ! 2]"

definition flash_pad ::
  "usb_dev option \<Rightarrow> int \<Rightarrow> int \<Rightarrow> int \<Rightarrow> int \<Rightarrow> colour \<Rightarrow> py_error + int list" where
  "flash_pad dev pad on_length off_length pulse_count colour =
     send_command dev [0x55, 0x09, 0xc3, 0x03, pad, on_length, off_length, pulse_count,
                       colour ! 0, colour ! 1, colour ! 2]"

subsection \<open>Decoding an inbound frame\<close>

text \<open>\<open>binascii.hexlify\<close>: two lower-case hexadecimal digits for each byte.\<close>

definition hex_digit :: "nat \<Rightarrow> char" where
  "hex_digit n = ''0123456789abcdef'' ! n"

definition hexlify :: "8 word list \<Rightarrow> string" where
  "hexlify bs = concat (map (\<lambda>b. [hex_digit (unat b div 16), hex_digit (unat b mod 16)]) bs)"

text \<open>
  \<open>str.replace(old, new)\<close>: every occurrence of \<open>old\<close>, found from left to right without
  overlap, is replaced. For an empty \<open>old\<close> Python puts \<open>new\<close> before every character
  and at the end.
\<close>

function py_replace :: "string \<Rightarrow> string \<Rightarrow> string \<Rightarrow> string" where
  "py_replace old new s =
     (if old = [] then new @ concat (map (\<lambda>c. c # new) s)
      else if s = [] then []
      else if take (length old) s = old then new @ py_replace old new (drop (length old) s)
      else hd s # py_replace old new (tl s))"
  by pat_completeness auto
termination
  by (relation "measure (\<lambda>(old, new, s). length s)") auto

declare py_replace.simps [simp del]

text \<open>\<open>'%s' % n\<close> for a non-negative integer: its decimal digits.\<close>

function str_nat :: "nat \<Rightarrow> string" where
  "str_nat n =
     (if n < 10 then [''0123456789'' ! n]
      else str_nat (n div 10) @ [''0123456789'' ! (n mod 10)])"
  by pat_completeness auto
termination
  by (relation "measure (\<lambda>n. n)") auto

declare str_nat.simps [simp del]

text \<open>
  What \<open>self.dev.read(0x81, 32, timeout = 100)\<close> does: it returns a packet (an array of
  unsigned bytes) or raises.
\<close>

datatype read_result =
    Packet "8 word list"
  | ReadUSBTimeoutError
  | ReadUSBError
  | ReadOtherError

text \<open>
  \<open>update_nfc\<close> returns the response string, or \<open>None\<close>. All of its exceptions are caught
  by its own handlers and end in \<open>None\<close>: the timeout, a USB error, and through
  \<open>except Exception\<close> also the \<open>AttributeError\<close> of \<open>self.dev.read\<close> on \<open>dev = None\<close> and the
  \<open>IndexError\<close> of \<open>bytelist[2]\<close> or \<open>bytelist[5]\<close> on a short packet. The slice
  \<open>bytelist[6:13]\<close> never raises.
\<close>

definition update_nfc :: "usb_dev option \<Rightarrow> read_result \<Rightarrow> string option" where
  "update_nfc dev rd =
     (case dev of
        None \<Rightarrow> None
      | Some d \<Rightarrow>
          (case rd of
             Packet bytelist \<Rightarrow>
               if bytelist = [] then None
               else if bytelist ! 0 = 0x56 then
                 (if length bytelist \<le> 5 then None
                  else
                    let pad_num = bytelist ! 2;
                        uid_bytes = take 7 (drop 6 bytelist);
                        identifier = hexlify uid_bytes;
                        identifier = py_replace ''000000'' '''' identifier;
                        removed = (bytelist ! 5 \<noteq> 0)
                    in if removed
                       then Some (''removed:'' @ str_nat (unat pad_num) @ '':'' @ identifier)
                       else Some (''added:'' @ str_nat (unat pad_num) @ '':'' @ identifier))
               else None
           | ReadUSBTimeoutError \<Rightarrow> None
           | ReadUSBError \<Rightarrow> None
           | ReadOtherError \<Rightarrow> None))"

text \<open>
  The identifier as the specification words it: the hexadecimal string with only a
  leading group \<open>000000\<close> removed. It is compared with what \<open>update_nfc\<close> computes.
\<close>

definition spec_identifier :: "8 word list \<Rightarrow> string" where
  "spec_identifier uid_bytes =
     (let h = hexlify uid_bytes
      in if take 6 h = ''000000'' then drop 6 h else h)"

section \<open>The session state machine (class Base of app/lego.py)\<close>

text \<open>
  The control thread's effects on its collaborators are recorded, in program order, as a
  trace of actions: frames written to the portal, calls of the mp3 player, of the
  lightshow threads and of the providers. Reads (\<open>glob.glob\<close>, the mp3 metadata, the
  reloaded tag file, \<open>activated()\<close> and \<open>configured()\<close>) are not actions; their results
  come from the environment \<open>env\<close>, as does what the provider modules (spotify,
  appletv, huesyncbox, samsungtv, homepod, xboxctl), which talk to devices over the
  network, return. A call of a collaborator is taken to return: an exception raised
  inside one is not modelled, while the exceptions of the modelled code itself (a
  missing key, an unbound global, the portal handle \<open>None\<close>) are. Logging and the pad
  writes of a running lightshow thread are not modelled. Durations and times are Python
  floats in the source and exact reals here: rounding is outside the model.
\<close>

datatype action =
    UsbWrite "int list"
  | SpotifyPause
  | SpotifyResume
  | SpotifySpotcast string int
  | PlayerOpen string
  | PlayerPlay
  | PlayerPause
  | PlayerPlaylist "string list"
  | LightshowStart nat real
  | LightshowCancelJoin nat
  | WebhookPost string string
  | SubprocessRun string
  | AppletvLoadConfig
  | AppletvLaunchDisney string
  | AppletvLaunchNetflix string
  | AppletvLaunchYoutube string
  | HuesyncboxLoadConfig
  | HuesyncboxSwitchToAppletv
  | SamsungtvLoadConfig
  | SamsungtvSwitchToAppletv
  | SamsungtvSendKey string
  | Sleep real
  | HomepodLoadConfig
  | HomepodStreamFile string "string option"
  | XboxctlLoadConfig
  | XboxctlSyncPowerOn
  | XboxctlSyncLaunchApp string

text \<open>
  One entry of \<open>tags['identifier']\<close>. The key \<open>k\<close> of the dictionary is the field
  \<open>k_key\<close>: \<open>None\<close> when the key is absent, and for the keys of which the source only
  tests the presence (\<open>shuffle\<close>, \<open>xbox\<close>) a truth value. \<open>position_ms_key\<close> is
  \<open>int(binding['position_ms'])\<close>, \<open>None\<close> when that raises \<open>KeyError\<close> or \<open>ValueError\<close>.
\<close>

record binding =
  playlist_key :: "string option"
  shuffle_key :: bool
  mp3_key :: "string option"
  slack_key :: "string option"
  command_key :: "string option"
  spotify_key :: "string option"
  position_ms_key :: "int option"
  disney_key :: "string option"
  netflix_key :: "string option"
  youtube_key :: "string option"
  airplay_key :: "string option"
  homepod_key :: "string option"
  xbox_key :: bool
  xbox_app_key :: "string option"

text \<open>The top level of the tag file, as far as \<open>startLego\<close> reads it.\<close>

record tags =
  lights_key :: "bool option"
  mp3_dir_key :: "string option"
  slack_hook_key :: "string option"
  identifier_key :: "(string \<Rightarrow> binding option) option"

text \<open>
  What the collaborators answer while one pass of the loop runs. \<open>int_of_str\<close> stands for
  Python's \<open>int()\<close> on a string, \<open>None\<close> where it raises \<open>ValueError\<close>.
\<close>

record env =
  load_tags :: tags
  app_dir :: string
  int_of_str :: "string \<Rightarrow> int option"
  glob_glob :: "string \<Rightarrow> string list"
  random_shuffle :: "string list \<Rightarrow> string list"
  mp3_info_length :: "string \<Rightarrow> real"
  spotify_activated :: bool
  spotify_resume :: real
  spotify_spotcast :: "string \<Rightarrow> int \<Rightarrow> real"
  huesyncbox_configured :: bool
  huesyncbox_switch_to_appletv_sync :: bool
  samsungtv_configured :: bool
  samsungtv_switch_to_appletv :: bool
  appletv_launch_disney :: "string \<Rightarrow> bool"
  appletv_launch_netflix :: "string \<Rightarrow> bool"
  appletv_launch_youtube :: "string \<Rightarrow> bool"
  homepod_stream_file :: "string \<Rightarrow> string option \<Rightarrow> bool"
  xboxctl_sync_power_on :: bool

text \<open>
  The module globals and the attributes of \<open>Base\<close>. \<open>mp3_duration\<close> and \<open>mp3elapsed\<close> are
  not assigned before the first \<open>startMp3\<close> and the first player event: \<open>None\<close> is the
  unbound name. \<open>lightshowThread\<close> is \<open>None\<close> while the attribute does not exist.
  \<open>threads_created\<close> and \<open>unjoined\<close> are bookkeeping of the model: the number of lightshow
  threads created so far (the next thread's number) and the threads started and not
  yet cancelled and joined.
\<close>

record session =
  base_dev :: "usb_dev option"
  switch_lights :: bool
  current_tag :: "string option"
  previous_tag :: "string option"
  mp3state :: "string option"
  mp3_duration :: "real option"
  mp3elapsed :: "real option"
  lightshowThread :: "nat option"
  threads_created :: nat
  unjoined :: "nat list"
  trace :: "action list"

definition OFF :: colour where "OFF = [0, 0, 0]"
definition RED :: colour where "RED = [255, 0, 0]"
definition GREEN :: colour where "GREEN = [0, 255, 0]"
definition BLUE :: colour where "BLUE = [0, 0, 255]"
definition PINK :: colour where "PINK = [255, 192, 203]"
definition ORANGE :: colour where "ORANGE = [255, 165, 0]"
definition PURPLE :: colour where "PURPLE = [255, 0, 255]"
definition LBLUE :: colour where "LBLUE = [173, 216, 230]"
definition OLIVE :: colour where "OLIVE = [128, 128, 0]"

definition emit :: "action \<Rightarrow> session \<Rightarrow> session" where
  "emit a s = s\<lparr>trace := trace s @ [a]\<rparr>"

text \<open>\<open>self.base.switch_pad\<close> and \<open>self.base.flash_pad\<close>, called from \<open>Base\<close>.\<close>

definition base_switch_pad :: "int \<Rightarrow> colour \<Rightarrow> session \<Rightarrow> py_error + session" where
  "base_switch_pad pad colour s =
     (case switch_pad (base_dev s) pad colour of
        Inl err \<Rightarrow> Inl err
      | Inr message \<Rightarrow> Inr (emit (UsbWrite message) s))"

definition base_flash_pad ::
  "int \<Rightarrow> int \<Rightarrow> int \<Rightarrow> int \<Rightarrow> colour \<Rightarrow> session \<Rightarrow> py_error + session" where
  "base_flash_pad pad on_length off_length pulse_count colour s =
     (case flash_pad (base_dev s) pad on_length off_length pulse_count colour of
        Inl err \<Rightarrow> Inl err
      | Inr message \<Rightarrow> Inr (emit (UsbWrite message) s))"

text \<open>
  \<open>startLightshow\<close>: with the lights on, a new thread is created for
  \<open>randomLightshow(duration_ms / 1000)\<close>, stored in \<open>self.lightshowThread\<close> and started.
  Nothing here stops a thread that is already running.
\<close>

definition startLightshow :: "real \<Rightarrow> session \<Rightarrow> session" where
  "startLightshow duration_ms s =
     (if switch_lights s then
        let t = threads_created s
        in emit (LightshowStart t (duration_ms / 1000))
             (s\<lparr>lightshowThread := Some t, threads_created := Suc t,
                 unjoined := unjoined s @ [t]\<rparr>)
      else s)"

text \<open>
  The block \<open>try: self.lightshowThread.do_run = False; self.lightshowThread.join()
  except AttributeError: pass\<close> of \<open>startLego\<close>: it joins the thread that the attribute
  holds, and no other.
\<close>

definition cancel_join :: "session \<Rightarrow> session" where
  "cancel_join s =
     (case lightshowThread s of
        None \<Rightarrow> s
      | Some t \<Rightarrow> emit (LightshowCancelJoin t) (s\<lparr>unjoined := removeAll t (unjoined s)\<rparr>))"

text \<open>
  The body of the monitor thread for one player event \<open>state\<close>, with \<open>state[0]\<close> as the
  string \<open>str\<close> makes of it.
\<close>

definition monitor :: "string \<Rightarrow> real \<Rightarrow> session \<Rightarrow> session" where
  "monitor state0 state1 s =
     s\<lparr>mp3state := Some (py_replace ''PlayerState.'' '''' state0), mp3elapsed := Some state1\<rparr>"

text \<open>
  \<open>startMp3\<close> takes one file name, or with \<open>is_playlist\<close> a list of them.
\<close>

datatype mp3_files = OneFile string | Playlist "string list"

definition startMp3 :: "env \<Rightarrow> mp3_files \<Rightarrow> string \<Rightarrow> session \<Rightarrow> session" where
  "startMp3 e filename mp3_dir s =
     (case filename of
        OneFile name \<Rightarrow>
          let mp3file = mp3_dir @ name;
              s = emit (PlayerOpen mp3file) s;
              s = emit PlayerPlay s;
              s = s\<lparr>mp3_duration := Some (mp3_info_length e mp3file)\<rparr>
          in startLightshow (mp3_info_length e mp3file * 1000) s
      | Playlist names \<Rightarrow>
          let s = emit (PlayerPlaylist names) s;
              total = foldl (\<lambda>total file_mp3. total + mp3_info_length e file_mp3) 0 names;
              s = s\<lparr>mp3_duration := Some total\<rparr>
          in startLightshow (total * 1000) s)"

definition stopMp3 :: "session \<Rightarrow> session" where
  "stopMp3 s = s\<lparr>mp3state := Some ''STOPPED''\<rparr>"

definition pauseMp3 :: "session \<Rightarrow> session" where
  "pauseMp3 s =
     (if mp3state s = Some ''PLAYING''
      then (emit PlayerPause s)\<lparr>mp3state := Some ''PAUSED''\<rparr>
      else s)"

text \<open>The last three statements of \<open>playMp3\<close>, under its comment \<open>New play\<close>.\<close>

definition new_play :: "env \<Rightarrow> string \<Rightarrow> string \<Rightarrow> session \<Rightarrow> session" where
  "new_play e filename mp3_dir s =
     (startMp3 e (OneFile filename) mp3_dir (stopMp3 s))\<lparr>mp3state := Some ''PLAYING''\<rparr>"

definition playMp3 :: "env \<Rightarrow> string \<Rightarrow> string \<Rightarrow> session \<Rightarrow> py_error + session" where
  "playMp3 e filename mp3_dir s =
     (let s = emit SpotifyPause s
      in if previous_tag s = current_tag s \<and> mp3state s = Some ''PAUSED'' then
           let s = emit PlayerPlay s
           in (case mp3_duration s of
                 None \<Rightarrow> Inl NameError
               | Some duration \<Rightarrow>
                   (case mp3elapsed s of
                      None \<Rightarrow> Inl NameError
                    | Some elapsed \<Rightarrow>
                        let remaining = duration - elapsed
                        in if remaining \<ge> 0.1
                           then Inr (startLightshow (remaining * 1000) s)
                           else Inr (new_play e filename mp3_dir s)))
         else Inr (new_play e filename mp3_dir s))"

definition playPlaylist ::
  "env \<Rightarrow> string \<Rightarrow> string \<Rightarrow> bool \<Rightarrow> session \<Rightarrow> py_error + session" where
  "playPlaylist e playlist_filename mp3_dir shuffle s =
     (let s = emit SpotifyPause s;
          mp3list = mp3_dir @ ''/'' @ playlist_filename @ ''/*.mp3'';
          list_mp3_to_play = glob_glob e mp3list
      in if list_mp3_to_play = [] then base_flash_pad 0 10 10 3 ORANGE s
         else
           let list_mp3_to_play =
                 (if shuffle then random_shuffle e list_mp3_to_play else list_mp3_to_play)
           in Inr ((startMp3 e (Playlist list_mp3_to_play) mp3_dir s)
                     \<lparr>mp3state := Some ''PLAYING''\<rparr>))"

definition switchHdmiToAppleTv :: "env \<Rightarrow> session \<Rightarrow> bool \<times> session" where
  "switchHdmiToAppleTv e s =
     (let s = emit HuesyncboxLoadConfig s;
          (hdmi_switched, s) =
            (if huesyncbox_configured e
             then (huesyncbox_switch_to_appletv_sync e, emit HuesyncboxSwitchToAppletv s)
             else (False, s))
      in if \<not> hdmi_switched then
           let s = emit SamsungtvLoadConfig s
           in if samsungtv_configured e
              then (samsungtv_switch_to_appletv e, emit SamsungtvSwitchToAppletv s)
              else (hdmi_switched, s)
         else (hdmi_switched, s))"

text \<open>\<open>appletv.activated()\<close> of app/appletv.py returns \<open>True\<close>.\<close>

definition appletv_activated :: bool where
  "appletv_activated = True"

text \<open>
  How one statement of the loop body ends: control goes on to the next statement, a
  \<open>continue\<close> leaves the rest of the body out, or an exception leaves the loop.
\<close>

datatype outcome = Next session | Continue session | Raised py_error

definition lift :: "py_error + session \<Rightarrow> outcome" where
  "lift r = (case r of Inl err \<Rightarrow> Raised err | Inr s \<Rightarrow> Next s)"

text \<open>Statements one after the other.\<close>

fun run_fields :: "(session \<Rightarrow> outcome) list \<Rightarrow> session \<Rightarrow> outcome" where
  "run_fields [] s = Next s"
| "run_fields (f # fs) s =
     (case f s of
        Next s' \<Rightarrow> run_fields fs s'
      | Continue s' \<Rightarrow> Continue s'
      | Raised err \<Rightarrow> Raised err)"

text \<open>
  The \<open>if\<close> statements of \<open>startLego\<close> for a matched tag, one definition for each, in
  the order of the source; \<open>b\<close> is \<open>tags['identifier'][identifier]\<close>.
\<close>

definition field_playlist :: "env \<Rightarrow> binding \<Rightarrow> string \<Rightarrow> session \<Rightarrow> outcome" where
  "field_playlist e b mp3_dir s =
     (case playlist_key b of
        None \<Rightarrow> Next s
      | Some playlist \<Rightarrow> lift (playPlaylist e playlist mp3_dir (shuffle_key b) s))"

definition field_mp3 :: "env \<Rightarrow> binding \<Rightarrow> string \<Rightarrow> session \<Rightarrow> outcome" where
  "field_mp3 e b mp3_dir s =
     (case mp3_key b of
        None \<Rightarrow> Next s
      | Some filename \<Rightarrow> lift (playMp3 e filename mp3_dir s))"

definition field_slack :: "tags \<Rightarrow> binding \<Rightarrow> session \<Rightarrow> outcome" where
  "field_slack tgs b s =
     (case slack_key b of
        None \<Rightarrow> Next s
      | Some message \<Rightarrow>
          (case slack_hook_key tgs of
             None \<Rightarrow> Raised KeyError
           | Some hook \<Rightarrow> Next (emit (WebhookPost hook message) s)))"

definition field_command :: "binding \<Rightarrow> session \<Rightarrow> outcome" where
  "field_command b s =
     (case command_key b of
        None \<Rightarrow> Next s
      | Some command \<Rightarrow> Next (emit (SubprocessRun command) s))"

definition field_spotify :: "env \<Rightarrow> binding \<Rightarrow> int \<Rightarrow> session \<Rightarrow> outcome" where
  "field_spotify e b pad s =
     (case spotify_key b of
        None \<Rightarrow> Next s
      | Some uri \<Rightarrow>
          if spotify_activated e then
            if current_tag s = previous_tag s
            then Continue (startLightshow (spotify_resume e) (emit SpotifyResume s))
            else
              let position_ms = (case position_ms_key b of Some n \<Rightarrow> n | None \<Rightarrow> 0);
                  s = stopMp3 s;
                  s = emit (SpotifySpotcast uri position_ms) s;
                  duration_ms = spotify_spotcast e uri position_ms
              in if duration_ms > 0 then Next (startLightshow duration_ms s)
                 else lift (base_flash_pad pad 10 10 6 RED s)
          else Next s)"

definition field_spotify_off :: "env \<Rightarrow> binding \<Rightarrow> session \<Rightarrow> outcome" where
  "field_spotify_off e b s =
     (if spotify_key b \<noteq> None \<and> \<not> spotify_activated e
      then Next (s\<lparr>current_tag := previous_tag s\<rparr>)
      else Next s)"

definition field_disney :: "env \<Rightarrow> binding \<Rightarrow> int \<Rightarrow> session \<Rightarrow> outcome" where
  "field_disney e b pad s =
     (case disney_key b of
        None \<Rightarrow> Next s
      | Some disney_url \<Rightarrow>
          if appletv_activated then
            let s = stopMp3 s;
                s = emit AppletvLoadConfig s;
                s = snd (switchHdmiToAppleTv e s);
                s = emit (AppletvLaunchDisney disney_url) s
            in if appletv_launch_disney e disney_url then
                 (case base_switch_pad pad PURPLE s of
                    Inl err \<Rightarrow> Raised err
                  | Inr s \<Rightarrow> Next (emit (SamsungtvSendKey ''OK'') (emit (Sleep 4) s)))
               else lift (base_flash_pad pad 10 10 6 RED s)
          else Next s)"

definition field_netflix :: "env \<Rightarrow> binding \<Rightarrow> int \<Rightarrow> session \<Rightarrow> outcome" where
  "field_netflix e b pad s =
     (case netflix_key b of
        None \<Rightarrow> Next s
      | Some netflix_url \<Rightarrow>
          if appletv_activated then
            let s = stopMp3 s;
                s = emit AppletvLoadConfig s;
                s = snd (switchHdmiToAppleTv e s);
                s = emit (AppletvLaunchNetflix netflix_url) s
            in if appletv_launch_netflix e netflix_url then
                 (case base_switch_pad pad PURPLE s of
                    Inl err \<Rightarrow> Raised err
                  | Inr s \<Rightarrow>
                      Next (emit (SamsungtvSendKey ''OK'')
                             (emit (Sleep 1)
                               (emit (SamsungtvSendKey ''OK'') (emit (Sleep 6) s)))))
               else lift (base_flash_pad pad 10 10 6 RED s)
          else Next s)"

definition field_youtube :: "env \<Rightarrow> binding \<Rightarrow> int \<Rightarrow> session \<Rightarrow> outcome" where
  "field_youtube e b pad s =
     (case youtube_key b of
        None \<Rightarrow> Next s
      | Some youtube_url \<Rightarrow>
          if appletv_activated then
            let s = stopMp3 s;
                s = emit AppletvLoadConfig s;
                s = snd (switchHdmiToAppleTv e s);
                s = emit (AppletvLaunchYoutube youtube_url) s
            in if appletv_launch_youtube e youtube_url then
                 (case base_switch_pad pad PURPLE s of
                    Inl err \<Rightarrow> Raised err
                  | Inr s \<Rightarrow> Next (emit (SamsungtvSendKey ''OK'') (emit (Sleep 4) s)))
               else lift (base_flash_pad pad 10 10 6 RED s)
          else Next s)"

definition field_airplay :: "env \<Rightarrow> binding \<Rightarrow> int \<Rightarrow> session \<Rightarrow> outcome" where
  "field_airplay e b pad s =
     (case airplay_key b of
        None \<Rightarrow> Next s
      | Some airplay_file \<Rightarrow>
          let s = stopMp3 s;
              s = emit HomepodLoadConfig s;
              airplay_target = homepod_key b;
              s = emit (HomepodStreamFile airplay_file airplay_target) s
          in if homepod_stream_file e airplay_file airplay_target
             then lift (base_switch_pad pad LBLUE s)
             else lift (base_flash_pad pad 10 10 6 RED s))"

definition nav_keys :: "(string \<times> real) list" where
  "nav_keys =
     [(''HOME'', 1.5), (''LEFT'', 0.5), (''DOWN'', 0.5), (''RIGHT'', 0.5),
      (''DOWN'', 0.3), (''DOWN'', 0.3), (''DOWN'', 0.3), (''OK'', 0.0)]"

text \<open>\<open>for key, delay in nav_keys\<close>: the result of \<open>send_key\<close> is only logged.\<close>

fun send_nav_keys :: "(string \<times> real) list \<Rightarrow> session \<Rightarrow> session" where
  "send_nav_keys [] s = s"
| "send_nav_keys ((key, delay) # keys) s =
     (let s = emit (SamsungtvSendKey key) s;
          s = (if delay > 0 then emit (Sleep delay) s else s)
      in send_nav_keys keys s)"

definition field_xbox :: "env \<Rightarrow> binding \<Rightarrow> int \<Rightarrow> session \<Rightarrow> outcome" where
  "field_xbox e b pad s =
     (if xbox_key b then
        let s = stopMp3 s;
            s = emit XboxctlLoadConfig s;
            s = emit SamsungtvLoadConfig s;
            s = (if samsungtv_configured e then send_nav_keys nav_keys s else s);
            s = emit XboxctlSyncPowerOn s
        in if xboxctl_sync_power_on e then
             (case base_switch_pad pad OLIVE s of
                Inl err \<Rightarrow> Raised err
              | Inr s \<Rightarrow>
                  (case xbox_app_key b of
                     None \<Rightarrow> Next s
                   | Some xbox_app \<Rightarrow>
                       if xbox_app \<noteq> []
                       then Next (emit (XboxctlSyncLaunchApp xbox_app) (emit (Sleep 3) s))
                       else Next s))
           else lift (base_flash_pad pad 10 10 6 RED s)
      else Next s)"

text \<open>The statements for a matched tag, in the order in which \<open>startLego\<close> has them.\<close>

definition matched_fields ::
  "env \<Rightarrow> tags \<Rightarrow> binding \<Rightarrow> string \<Rightarrow> int \<Rightarrow> (session \<Rightarrow> outcome) list" where
  "matched_fields e tgs b mp3_dir pad =
     [field_playlist e b mp3_dir, field_mp3 e b mp3_dir, field_slack tgs b,
      field_command b, field_spotify e b pad, field_spotify_off e b,
      field_disney e b pad, field_netflix e b pad, field_youtube e b pad,
      field_airplay e b pad, field_xbox e b pad]"

text \<open>
  The assignments to \<open>previous_tag\<close> and \<open>current_tag\<close> for a matched tag.
\<close>

definition set_tags :: "string \<Rightarrow> session \<Rightarrow> session" where
  "set_tags identifier s =
     (let s = (if current_tag s = None
               then s\<lparr>previous_tag := Some identifier\<rparr>
               else s\<lparr>previous_tag := current_tag s\<rparr>)
      in s\<lparr>current_tag := Some identifier\<rparr>)"

text \<open>
  \<open>try: mp3_dir = tags['mp3_dir'] + '/' except KeyError: mp3_dir = ...\<close>, with \<open>app_dir\<close>
  the directory of the module.
\<close>

definition get_mp3_dir :: "env \<Rightarrow> string" where
  "get_mp3_dir e =
     (case mp3_dir_key (load_tags e) of
        Some dir \<Rightarrow> dir @ ''/''
      | None \<Rightarrow> app_dir e @ ''/../music/'')"

text \<open>The branch \<open>if status == 'added'\<close> of the loop body.\<close>

definition added :: "env \<Rightarrow> int \<Rightarrow> string \<Rightarrow> session \<Rightarrow> outcome" where
  "added e pad identifier s =
     (case (if switch_lights s then base_switch_pad pad BLUE s else Inr s) of
        Inl err \<Rightarrow> Raised err
      | Inr s \<Rightarrow>
          let tgs = load_tags e;
              mp3_dir = get_mp3_dir e;
              s = cancel_join s
          in (case identifier_key tgs of
                None \<Rightarrow> Raised KeyError
              | Some table \<Rightarrow>
                  (case table identifier of
                     Some b \<Rightarrow> run_fields (matched_fields e tgs b mp3_dir pad) (set_tags identifier s)
                   | None \<Rightarrow> lift (base_switch_pad pad RED s))))"

text \<open>The branch \<open>if status == 'removed'\<close> of the loop body.\<close>

definition removed :: "env \<Rightarrow> string \<Rightarrow> session \<Rightarrow> session" where
  "removed e identifier s =
     (if Some identifier = current_tag s then
        let s = cancel_join s;
            s = pauseMp3 s
        in if spotify_activated e then emit SpotifyPause s else s
      else s)"

text \<open>\<open>str.split(':')\<close>\<close>

fun split_colon :: "string \<Rightarrow> string list" where
  "split_colon [] = [[]]"
| "split_colon (c # cs) =
     (if c = CHR '':'' then [] # split_colon cs
      else (case split_colon cs of
              [] \<Rightarrow> [[c]]
            | part # parts \<Rightarrow> (c # part) # parts))"

definition finish :: "outcome \<Rightarrow> py_error + session" where
  "finish r = (case r of Next s \<Rightarrow> Inr s | Continue s \<Rightarrow> Inr s | Raised err \<Rightarrow> Inl err)"

text \<open>
  One pass of \<open>while True\<close> in \<open>startLego\<close>: \<open>rd\<close> is what the read of this pass meets,
  \<open>e\<close> what the collaborators answer during the pass.
\<close>

definition loop_body :: "env \<Rightarrow> read_result \<Rightarrow> session \<Rightarrow> py_error + session" where
  "loop_body e rd s =
     (case update_nfc (base_dev s) rd of
        None \<Rightarrow> Inr s
      | Some tag \<Rightarrow>
          if tag = [] then Inr s
          else
            let parts = split_colon tag;
                status = parts ! 0
            in if length parts \<le> 1 then Inl IndexError
               else
                 (case int_of_str e (parts ! 1) of
                    None \<Rightarrow> Inl ValueError
                  | Some pad \<Rightarrow>
                      if length parts \<le> 2 then Inl IndexError
                      else
                        let identifier = parts ! 2;
                            s = (if status = ''removed'' then removed e identifier s else s)
                        in if status = ''added'' then finish (added e pad identifier s)
                           else Inr s))"

text \<open>
  The start of \<open>startLego\<close>, up to the loop: \<open>probe\<close> is what \<open>Dimensions()\<close> meets, \<open>tgs\<close>
  the tag file as first loaded.
\<close>

definition startLego_init :: "usb_probe \<Rightarrow> tags \<Rightarrow> py_error + session" where
  "startLego_init probe tgs =
     (let s = \<lparr>base_dev = dimensions_init probe,
                switch_lights = (case lights_key tgs of Some l \<Rightarrow> l | None \<Rightarrow> True),
                current_tag = None, previous_tag = None, mp3state = None,
                mp3_duration = None, mp3elapsed = None,
                lightshowThread = None, threads_created = 0, unjoined = [], trace = []\<rparr>
      in if switch_lights s then base_switch_pad 0 GREEN s else base_switch_pad 0 OFF s)"

text \<open>
  What happens to the session, one after the other: a pass of the control loop, or a
  player event that the monitor thread writes into the globals.
\<close>

datatype input = Poll env read_result | PlayerEvent string real

definition step :: "input \<Rightarrow> session \<Rightarrow> py_error + session" where
  "step i s =
     (case i of
        Poll e rd \<Rightarrow> loop_body e rd s
      | PlayerEvent state0 state1 \<Rightarrow> Inr (monitor state0 state1 s))"

fun run :: "input list \<Rightarrow> session \<Rightarrow> py_error + session" where
  "run [] s = Inr s"
| "run (i # is) s = (case step i s of Inl err \<Rightarrow> Inl err | Inr s' \<Rightarrow> run is s')"


subsection \<open>Concrete inputs\<close>

text \<open>
  A tag file with one identifier, an environment whose providers all answer with
  success, and sessions on an open portal: the inputs at which the theorems below are
  evaluated.
\<close>

definition no_binding :: binding where
  "no_binding =
     \<lparr>playlist_key = None, shuffle_key = False, mp3_key = None, slack_key = None,
      command_key = None, spotify_key = None, position_ms_key = None, disney_key = None,
      netflix_key = None, youtube_key = None, airplay_key = None, homepod_key = None,
      xbox_key = False, xbox_app_key = None\<rparr>"

definition example_tags :: "binding \<Rightarrow> tags" where
  "example_tags b =
     \<lparr>lights_key = None, mp3_dir_key = Some ''/music'', slack_hook_key = Some ''hook'',
      identifier_key = Some (\<lambda>i. if i = ''a1b2c3d4'' then Some b else None)\<rparr>"

definition example_env :: "binding \<Rightarrow> env" where
  "example_env b =
     \<lparr>load_tags = example_tags b, app_dir = ''/app'', int_of_str = (\<lambda>x. Some 2),
      glob_glob = (\<lambda>pattern. [''/music/x/1.mp3'', ''/music/x/2.mp3'']),
      random_shuffle = rev, mp3_info_length = (\<lambda>file. 100),
      spotify_activated = True, spotify_resume = 5000,
      spotify_spotcast = (\<lambda>uri position. 7000),
      huesyncbox_configured = False, huesyncbox_switch_to_appletv_sync = False,
      samsungtv_configured = False, samsungtv_switch_to_appletv = False,
      appletv_launch_disney = (\<lambda>url. True), appletv_launch_netflix = (\<lambda>url. True),
      appletv_launch_youtube = (\<lambda>url. True), homepod_stream_file = (\<lambda>file target. True),
      xboxctl_sync_power_on = True\<rparr>"

text \<open>The session as \<open>startLego\<close> enters its loop, lights on.\<close>

definition fresh_session :: session where
  "fresh_session =
     \<lparr>base_dev = Some UsbDev, switch_lights = True,
      current_tag = None, previous_tag = None, mp3state = None,
      mp3_duration = None, mp3elapsed = None,
      lightshowThread = None, threads_created = 0, unjoined = [], trace = []\<rparr>"

text \<open>
  A session in which the tag a1b2c3d4 was played and then removed: the track of 100
  seconds is paused after \<open>elapsed\<close> seconds.
\<close>

definition paused_session :: "real \<Rightarrow> session" where
  "paused_session elapsed =
     \<lparr>base_dev = Some UsbDev, switch_lights = True,
      current_tag = Some ''a1b2c3d4'', previous_tag = Some ''a1b2c3d4'',
      mp3state = Some ''PAUSED'', mp3_duration = Some 100, mp3elapsed = Some elapsed,
      lightshowThread = Some 0, threads_created = 1, unjoined = [], trace = []\<rparr>"

text \<open>
  A session in which another tag, 0badcafe, is playing and its lightshow thread 0 is
  running.
\<close>

definition playing_session :: session where
  "playing_session =
     \<lparr>base_dev = Some UsbDev, switch_lights = True,
      current_tag = Some ''0badcafe'', previous_tag = Some ''0badcafe'',
      mp3state = Some ''PLAYING'', mp3_duration = Some 100, mp3elapsed = Some 10,
      lightshowThread = Some 0, threads_created = 1, unjoined = [0], trace = []\<rparr>"

text \<open>The actions of one pass that began in \<open>s\<close>, when it did not raise.\<close>

definition actions_of :: "session \<Rightarrow> outcome \<Rightarrow> action list option" where
  "actions_of s r =
     (case finish r of
        Inl err \<Rightarrow> None
      | Inr s' \<Rightarrow> Some (drop (length (trace s)) (trace s')))"

text \<open>A binding in which every key is present.\<close>

definition full_binding :: binding where
  "full_binding =
     \<lparr>playlist_key = Some ''x'', shuffle_key = True, mp3_key = Some ''a.mp3'',
      slack_key = Some ''hello'', command_key = Some ''true'', spotify_key = Some ''uri'',
      position_ms_key = Some 3, disney_key = Some ''d'', netflix_key = Some ''n'',
      youtube_key = Some ''y'', airplay_key = Some ''f.mp3'', homepod_key = Some ''kitchen'',
      xbox_key = True, xbox_app_key = Some ''app''\<rparr>"

subsection \<open>Notions used in the statements\<close>

text \<open>
  An input is a matched tag when it is a pass of the loop that reads an added event
  whose identifier the tag file, as reloaded in that pass, binds.
\<close>

definition matched_tag :: "usb_dev option \<Rightarrow> input \<Rightarrow> bool" where
  "matched_tag dev i =
     (case i of
        PlayerEvent state0 state1 \<Rightarrow> False
      | Poll e rd \<Rightarrow>
          (case update_nfc dev rd of
             None \<Rightarrow> False
           | Some tag \<Rightarrow>
               let parts = split_colon tag
               in parts ! 0 = ''added'' \<and> 2 < length parts
                  \<and> int_of_str e (parts ! 1) \<noteq> None
                  \<and> (case identifier_key (load_tags e) of
                        None \<Rightarrow> False
                      | Some table \<Rightarrow> table (parts ! 2) \<noteq> None)))"

text \<open>
  For the calls that only one of the statements for a matched tag makes: the place of
  that statement in the source, counted from 0 (playlist, mp3, slack, command, spotify,
  disney, netflix, youtube, airplay, xbox).
\<close>

fun statement_of :: "action \<Rightarrow> nat option" where
  "statement_of (PlayerPlaylist names) = Some 0"
| "statement_of PlayerPlay = Some 1"
| "statement_of (WebhookPost hook message) = Some 2"
| "statement_of (SubprocessRun command) = Some 3"
| "statement_of SpotifyResume = Some 4"
| "statement_of (SpotifySpotcast uri position_ms) = Some 4"
| "statement_of (AppletvLaunchDisney url) = Some 5"
| "statement_of (AppletvLaunchNetflix url) = Some 6"
| "statement_of (AppletvLaunchYoutube url) = Some 7"
| "statement_of (HomepodStreamFile file target) = Some 8"
| "statement_of XboxctlSyncPowerOn = Some 9"
| "statement_of a = None"

text \<open>
  The same calls numbered in the order that the specification gives: the local mp3
  first, then the local playlist, then as above.
\<close>

fun spec_statement_of :: "action \<Rightarrow> nat option" where
  "spec_statement_of PlayerPlay = Some 0"
| "spec_statement_of (PlayerPlaylist names) = Some 1"
| "spec_statement_of a = statement_of a"

text \<open>
  Frame conditions on a part of a pass from \<open>s\<close> to \<open>s'\<close>: the portal, the lights switch
  and the two tag globals are kept; and the trace grows by calls that belong to no
  statement or to the statement \<open>k\<close>.
\<close>

definition tags_kept :: "session \<Rightarrow> session \<Rightarrow> bool" where
  "tags_kept s s' \<longleftrightarrow>
     base_dev s' = base_dev s \<and> switch_lights s' = switch_lights s
     \<and> current_tag s' = current_tag s \<and> previous_tag s' = previous_tag s"

definition emits :: "nat \<Rightarrow> session \<Rightarrow> session \<Rightarrow> bool" where
  "emits k s s' \<longleftrightarrow>
     (\<exists>seg. trace s' = trace s @ seg \<and> set (List.map_filter statement_of seg) \<subseteq> {k})"

text \<open>
  The same with \<open>current_tag\<close> either kept or set back to \<open>previous_tag\<close>.
\<close>

definition tags_stepped :: "session \<Rightarrow> session \<Rightarrow> bool" where
  "tags_stepped s s' \<longleftrightarrow>
     base_dev s' = base_dev s \<and> switch_lights s' = switch_lights s
     \<and> previous_tag s' = previous_tag s
     \<and> (current_tag s' = current_tag s \<or> current_tag s' = previous_tag s)"

text \<open>The statements for a matched tag with their places in the source.\<close>

definition numbered_fields ::
  "env \<Rightarrow> tags \<Rightarrow> binding \<Rightarrow> string \<Rightarrow> int \<Rightarrow> (nat \<times> (session \<Rightarrow> outcome)) list" where
  "numbered_fields e tgs b mp3_dir pad =
     [(0, field_playlist e b mp3_dir), (1, field_mp3 e b mp3_dir), (2, field_slack tgs b),
      (3, field_command b), (4, field_spotify e b pad), (4, field_spotify_off e b),
      (5, field_disney e b pad), (6, field_netflix e b pad), (7, field_youtube e b pad),
      (8, field_airplay e b pad), (9, field_xbox e b pad)]"

section \<open>Properties of the portal driver\<close>

lemma checksum_loop_mod:
  "0 \<le> c \<Longrightarrow> c < 256 \<Longrightarrow> \<forall>w \<in> set ws. 0 \<le> w \<and> w < 256 \<Longrightarrow>
   checksum_loop c ws = (c + sum_list ws) mod 256"
proof (induction ws arbitrary: c)
  case Nil
  then show ?case by simp
next
  case (Cons w ws)
  let ?c = "if c + w \<ge> 256 then c + w - 256 else c + w"
  have w: "0 \<le> w" "w < 256" using Cons.prems(3) by auto
  have range: "0 \<le> ?c" "?c < 256" using Cons.prems(1,2) w by auto
  have rest: "\<forall>x \<in> set ws. 0 \<le> x \<and> x < 256" using Cons.prems(3) by auto
  have "checksum_loop c (w # ws) = checksum_loop ?c ws" by (simp add: Let_def)
  also have "\<dots> = (?c + sum_list ws) mod 256" using Cons.IH [OF range rest] .
  also have "\<dots> = (c + sum_list (w # ws)) mod 256"
  proof (cases "c + w \<ge> 256")
    case True
    have "c + w - 256 + sum_list ws = (c + (w + sum_list ws)) - 256" by simp
    then have "(c + w - 256 + sum_list ws) mod 256 = (c + (w + sum_list ws)) mod 256"
      by (simp only: minus_mod_self2)
    with True show ?thesis by (simp only: if_True sum_list.Cons)
  next
    case False
    then show ?thesis by (simp only: if_False sum_list.Cons add.assoc)
  qed
  finally show ?case .
qed

lemma pad_message_short:
  "length m \<le> 32 \<Longrightarrow> pad_message m = m @ replicate (32 - length m) 0"
proof (induction m rule: pad_message.induct)
  case (1 message)
  show ?case
  proof (cases "length message < 32")
    case True
    then have "pad_message message = pad_message (message @ [0])"
      by (subst pad_message.simps) simp
    also have "\<dots> = (message @ [0]) @ replicate (32 - length (message @ [0])) 0"
      using "1.IH" [OF True] True by simp
    also have "\<dots> = message @ replicate (32 - length message) 0"
    proof -
      have "32 - length message = Suc (32 - length (message @ [0]))" using True by simp
      then show ?thesis by (simp add: replicate_append_same)
    qed
    finally show ?thesis .
  next
    case False
    with "1.prems" have "length message = 32" by simp
    then show ?thesis by (subst pad_message.simps) simp
  qed
qed

lemma pad_message_long: "32 \<le> length m \<Longrightarrow> pad_message m = m"
  by (subst pad_message.simps) simp


lemma send_command_Some: "send_command (Some d) command = Inr (build_message command)"
  by (simp add: send_command_def)

lemma send_command_None: "send_command None command = Inl AttributeError"
  by (simp add: send_command_def)

lemma py_replace_found:
  "old \<noteq> [] \<Longrightarrow> take (length old) s = old \<Longrightarrow>
   py_replace old new s = new @ py_replace old new (drop (length old) s)"
  by (subst py_replace.simps) auto

lemma py_replace_not_found:
  "old \<noteq> [] \<Longrightarrow> take (length old) (c # s) \<noteq> old \<Longrightarrow>
   py_replace old new (c # s) = c # py_replace old new s"
  by (subst py_replace.simps) simp

lemma py_replace_after_nonzero:
  "CHR ''0'' \<notin> set a \<Longrightarrow>
   py_replace ''000000'' '''' (a @ ''000000'' @ b) = a @ py_replace ''000000'' '''' b"
proof (induction a)
  case Nil
  have "py_replace ''000000'' '''' (''000000'' @ b) =
        '''' @ py_replace ''000000'' '''' (drop (length ''000000'') (''000000'' @ b))"
    by (rule py_replace_found) simp_all
  then show ?case by simp
next
  case (Cons c a)
  then have c: "c \<noteq> CHR ''0''" and a: "CHR ''0'' \<notin> set a" by auto
  have no: "take (length ''000000'') (c # (a @ ''000000'' @ b)) \<noteq> ''000000''"
    using c by simp
  have "py_replace ''000000'' '''' (c # (a @ ''000000'' @ b)) =
        c # py_replace ''000000'' '''' (a @ ''000000'' @ b)"
    by (rule py_replace_not_found [OF _ no]) simp
  with Cons.IH [OF a] show ?case by simp
qed

text \<open>
  C1 (as amended). For every command of at most 31 bytes, each in 0..255, that
  \<open>send_command\<close> sends on an open device, the byte after the command is the sum of the
  command's bytes modulo 256, and the frame handed to the device is the command, that
  checksum and zero padding, 32 bytes in all.
\<close>

theorem send_command_frame:
  assumes "length C \<le> 31" and "\<forall>w \<in> set C. 0 \<le> w \<and> w < 256"
  shows "send_command (Some dev) C =
           Inr (C @ [sum_list C mod 256] @ replicate (31 - length C) 0)
         \<and> length (C @ [sum_list C mod 256] @ replicate (31 - length C) 0) = 32"
proof -
  have sum: "checksum_loop 0 C = sum_list C mod 256"
    using checksum_loop_mod [of 0 C] assms(2) by simp
  have "length (C @ [sum_list C mod 256]) \<le> 32" using assms(1) by simp
  then have "pad_message (C @ [sum_list C mod 256]) =
             (C @ [sum_list C mod 256]) @ replicate (32 - length (C @ [sum_list C mod 256])) 0"
    by (rule pad_message_short)
  then have "build_message C = C @ [sum_list C mod 256] @ replicate (31 - length C) 0"
    by (simp add: build_message_def sum)
  then show ?thesis using assms(1) by (simp add: send_command_Some)
qed

text \<open>The witness of C1: the frame that sets pad 2 to blue.\<close>

theorem send_command_frame_witness:
  "send_command (Some UsbDev) [0x55, 0x06, 0xc0, 0x02, 2, 0, 0, 255] =
     Inr ([0x55, 0x06, 0xc0, 0x02, 2, 0, 0, 255, 30] @ replicate 23 0)"
proof -
  have len: "length [0x55, 0x06, 0xc0, 0x02, 2, 0, 0, 255 :: int] \<le> 31" by simp
  have bytes: "\<forall>w \<in> set [0x55, 0x06, 0xc0, 0x02, 2, 0, 0, 255 :: int]. 0 \<le> w \<and> w < 256"
    by simp
  from send_command_frame [OF len bytes, of UsbDev] show ?thesis by simp
qed

text \<open>
  The counterexample of C1 as stated: a command of 32 zero bytes is sent as a frame of
  33 bytes, since the source only pads and never cuts.
\<close>

theorem send_command_frame_counterexample:
  "send_command (Some UsbDev) (replicate 32 0) = Inr (replicate 33 0)
   \<and> length (replicate 33 (0::int)) \<noteq> 32"
proof -
  have "send_command (Some UsbDev) (replicate 32 0) = Inr (replicate 33 0)"
    by code_simp
  then show ?thesis by simp
qed

text \<open>
  C2 (as amended). For every inbound frame of 32 bytes whose first byte is 0x56,
  \<open>update_nfc\<close> answers with the kind (removed when byte 5 is not zero, added
  otherwise), the pad number of byte 2 in decimal, and the identifier: the hexadecimal
  digits of bytes 6..12 from which \<open>str.replace\<close> has removed the groups \<open>000000\<close>. A
  group is removed wherever the scan from the left finds it: after any run of digits
  that holds no \<open>0\<close> (the empty run, that is a leading group, included) the group is
  dropped and the scan goes on behind it.
\<close>

theorem update_nfc_identifier:
  assumes "length bs = 32" and "bs ! 0 = 0x56"
  shows "update_nfc (Some dev) (Packet bs) =
           Some ((if bs ! 5 \<noteq> 0 then ''removed:'' else ''added:'')
                 @ str_nat (unat (bs ! 2)) @ '':''
                 @ py_replace ''000000'' '''' (hexlify (take 7 (drop 6 bs))))
         \<and> (\<forall>a b. hexlify (take 7 (drop 6 bs)) = a @ ''000000'' @ b \<and> CHR ''0'' \<notin> set a \<longrightarrow>
                py_replace ''000000'' '''' (hexlify (take 7 (drop 6 bs))) =
                  a @ py_replace ''000000'' '''' b)"
proof -
  have ne: "bs \<noteq> []" using assms(1) by auto
  have long: "\<not> length bs \<le> 5" using assms(1) by simp
  have first: "update_nfc (Some dev) (Packet bs) =
           Some ((if bs ! 5 \<noteq> 0 then ''removed:'' else ''added:'')
                 @ str_nat (unat (bs ! 2)) @ '':''
                 @ py_replace ''000000'' '''' (hexlify (take 7 (drop 6 bs))))"
    using ne long assms(2) by (simp add: update_nfc_def Let_def)
  have second: "\<forall>a b. hexlify (take 7 (drop 6 bs)) = a @ ''000000'' @ b \<and> CHR ''0'' \<notin> set a \<longrightarrow>
                py_replace ''000000'' '''' (hexlify (take 7 (drop 6 bs))) =
                  a @ py_replace ''000000'' '''' b"
    using py_replace_after_nonzero by simp
  from first second show ?thesis by (rule conjI)
qed

text \<open>
  The witness of C2, the example of the specification: identifier bytes
  00 00 00 a1 b2 c3 d4 on pad 2 with removal flag 0.
\<close>

theorem update_nfc_identifier_witness:
  "update_nfc (Some UsbDev)
     (Packet ([0x56, 0, 2, 0, 0, 0, 0, 0, 0, 0xa1, 0xb2, 0xc3, 0xd4] @ replicate 19 0)) =
   Some ''added:2:a1b2c3d4''"
proof -
  let ?bs = "[0x56, 0, 2, 0, 0, 0, 0, 0, 0, 0xa1, 0xb2, 0xc3, 0xd4] @ replicate 19 (0 :: 8 word)"
  have len: "length ?bs = 32" by simp
  have marker: "?bs ! 0 = 0x56" by simp
  have digits: "(if ?bs ! 5 \<noteq> 0 then ''removed:'' else ''added:'')
                 @ str_nat (unat (?bs ! 2)) @ '':''
                 @ py_replace ''000000'' '''' (hexlify (take 7 (drop 6 ?bs))) =
              ''added:2:a1b2c3d4''"
    by code_simp
  from update_nfc_identifier [OF len marker, of UsbDev] have
    "update_nfc (Some UsbDev) (Packet ?bs) =
           Some ((if ?bs ! 5 \<noteq> 0 then ''removed:'' else ''added:'')
                 @ str_nat (unat (?bs ! 2)) @ '':''
                 @ py_replace ''000000'' '''' (hexlify (take 7 (drop 6 ?bs))))"
    by (rule conjunct1)
  then show ?thesis by (simp only: digits)
qed

text \<open>
  The counterexample of C2 as stated: with identifier bytes a1 00 00 00 b2 c3 d4 the
  three zero bytes stand after a byte that is not zero, and \<open>update_nfc\<close> removes them
  all the same, where the identifier of the specification keeps them.
\<close>

theorem update_nfc_identifier_counterexample:
  "update_nfc (Some UsbDev)
     (Packet ([0x56, 0, 2, 0, 0, 0, 0xa1, 0, 0, 0, 0xb2, 0xc3, 0xd4] @ replicate 19 0)) =
   Some ''added:2:a1b2c3d4''
   \<and> spec_identifier [0xa1, 0, 0, 0, 0xb2, 0xc3, 0xd4] = ''a1000000b2c3d4''"
  by code_simp

text \<open>
  C3 (the behaviour of the code where the claim fails). After a failed discovery the
  driver holds \<open>dev = None\<close>. \<open>update_nfc\<close> then returns no event, but \<open>send_command\<close>
  and the pad helpers built on it raise \<open>AttributeError\<close> instead of doing nothing.
\<close>

theorem disabled_driver_raises:
  "dimensions_init DeviceNotFound = None
   \<and> update_nfc (dimensions_init DeviceNotFound) rd = None
   \<and> send_command (dimensions_init DeviceNotFound) command = Inl AttributeError
   \<and> switch_pad (dimensions_init DeviceNotFound) pad colour = Inl AttributeError
   \<and> fade_pad (dimensions_init DeviceNotFound) pad pulse_time pulse_count colour
       = Inl AttributeError
   \<and> flash_pad (dimensions_init DeviceNotFound) pad on_length off_length pulse_count colour
       = Inl AttributeError"
  by (simp add: dimensions_init_def init_usb_def update_nfc_def send_command_None
      switch_pad_def fade_pad_def flash_pad_def)

section \<open>Properties of the session state machine\<close>

lemma switch_pad_Some:
  "switch_pad (Some d) pad colour =
     Inr (build_message [0x55, 0x06, 0xc0, 0x02, pad, colour ! 0, colour ! 1, colour ! 2])"
  by (simp add: switch_pad_def send_command_Some)

lemma flash_pad_Some:
  "flash_pad (Some d) pad on_length off_length pulse_count colour =
     Inr (build_message [0x55, 0x09, 0xc3, 0x03, pad, on_length, off_length, pulse_count,
                         colour ! 0, colour ! 1, colour ! 2])"
  by (simp add: flash_pad_def send_command_Some)

text \<open>
  C4 (as amended). If \<open>playMp3\<close> is called when \<open>previous_tag\<close> equals \<open>current_tag\<close>, the
  playback state is \<open>PAUSED\<close>, and the track duration less the elapsed time is at least
  0.1 seconds, then it pauses the streaming service, resumes the paused player with
  \<open>play\<close> and opens no file, and, when the lights are enabled, starts one lightshow thread
  whose duration is the track duration less the elapsed time. With the lights disabled
  it starts none. The globals are left as they were.
\<close>

theorem playMp3_resume:
  assumes "previous_tag s = current_tag s" and "mp3state s = Some ''PAUSED''"
    and "mp3_duration s = Some duration" and "mp3elapsed s = Some elapsed"
    and "duration - elapsed \<ge> 0.1"
  shows "\<exists>s'. playMp3 e filename mp3_dir s = Inr s'
           \<and> trace s' = trace s @ [SpotifyPause, PlayerPlay]
                 @ (if switch_lights s
                    then [LightshowStart (threads_created s) (duration - elapsed)] else [])
           \<and> unjoined s' = unjoined s @ (if switch_lights s then [threads_created s] else [])
           \<and> mp3state s' = Some ''PAUSED''
           \<and> mp3_duration s' = Some duration \<and> mp3elapsed s' = Some elapsed
           \<and> current_tag s' = current_tag s \<and> previous_tag s' = previous_tag s"
  using assms by (simp add: playMp3_def emit_def startLightshow_def Let_def)

text \<open>The witness of C4: a track of 100 seconds paused after 40.\<close>

theorem playMp3_resume_witness:
  "\<exists>s'. playMp3 (example_env no_binding) ''a.mp3'' ''/music/'' (paused_session 40) = Inr s'
      \<and> trace s' = [SpotifyPause, PlayerPlay, LightshowStart 1 60]"
proof -
  have a: "previous_tag (paused_session 40) = current_tag (paused_session 40)"
    by (simp add: paused_session_def)
  have b: "mp3state (paused_session 40) = Some ''PAUSED''" by (simp add: paused_session_def)
  have c: "mp3_duration (paused_session 40) = Some 100" by (simp add: paused_session_def)
  have d: "mp3elapsed (paused_session 40) = Some 40" by (simp add: paused_session_def)
  have f: "(100::real) - 40 \<ge> 0.1" by simp
  from playMp3_resume [OF a b c d f, of "example_env no_binding" "''a.mp3''" "''/music/''"]
  show ?thesis by (auto simp: paused_session_def)
qed

text \<open>
  The counterexample of C4 as stated: the same track paused after 99.95 seconds. The
  player is resumed, and then the track is opened and played from the beginning with a
  lightshow of the whole 100 seconds.
\<close>

theorem playMp3_resume_counterexample:
  "map_sum id trace
     (playMp3 (example_env no_binding) ''a.mp3'' ''/music/'' (paused_session 99.95)) =
   Inr [SpotifyPause, PlayerPlay, PlayerOpen ''/music/a.mp3'', PlayerPlay,
        LightshowStart 1 100]"
  by (simp add: playMp3_def emit_def startLightshow_def Let_def paused_session_def
      new_play_def startMp3_def stopMp3_def example_env_def)

text \<open>
  C7 (as amended). For every added event on an open portal whose identifier is not in
  the identifier table of the tag file, \<open>current_tag\<close>, \<open>previous_tag\<close> and the playback
  globals are not changed, and the effects are, in this order: with the lights enabled
  the event's pad is set to blue; the lightshow thread that \<open>lightshowThread\<close> holds, if
  any, is cancelled and joined; the event's pad is set to red, the colour of an unknown
  tag.
\<close>

theorem added_unknown:
  assumes "identifier_key (load_tags e) = Some table" and "table identifier = None"
    and "base_dev s = Some d"
  shows "\<exists>s'. added e pad identifier s = Next s'
           \<and> current_tag s' = current_tag s \<and> previous_tag s' = previous_tag s
           \<and> mp3state s' = mp3state s \<and> mp3_duration s' = mp3_duration s
           \<and> mp3elapsed s' = mp3elapsed s \<and> lightshowThread s' = lightshowThread s
           \<and> trace s' = trace s
                 @ (if switch_lights s
                    then [UsbWrite (build_message [0x55, 0x06, 0xc0, 0x02, pad, 0, 0, 255])]
                    else [])
                 @ (case lightshowThread s of
                      None \<Rightarrow> []
                    | Some t \<Rightarrow> [LightshowCancelJoin t])
                 @ [UsbWrite (build_message [0x55, 0x06, 0xc0, 0x02, pad, 255, 0, 0])]"
  using assms
  by (simp add: added_def base_switch_pad_def switch_pad_Some cancel_join_def emit_def
      lift_def BLUE_def RED_def Let_def split: option.split)

text \<open>The witness of C7: the unknown tag ffff on pad 2 of a fresh session.\<close>

theorem added_unknown_witness:
  "\<exists>s'. added (example_env no_binding) 2 ''ffff'' fresh_session = Next s'
      \<and> current_tag s' = None \<and> previous_tag s' = None
      \<and> trace s' = [UsbWrite (build_message [0x55, 0x06, 0xc0, 0x02, 2, 0, 0, 255]),
                    UsbWrite (build_message [0x55, 0x06, 0xc0, 0x02, 2, 255, 0, 0])]"
proof -
  have a: "identifier_key (load_tags (example_env no_binding)) =
             Some (\<lambda>i. if i = ''a1b2c3d4'' then Some no_binding else None)"
    by (simp add: example_env_def example_tags_def)
  have b: "(\<lambda>i. if i = ''a1b2c3d4'' then Some no_binding else None) ''ffff'' = None"
    by simp
  have c: "base_dev fresh_session = Some UsbDev" by (simp add: fresh_session_def)
  from added_unknown [OF a b c, of 2] show ?thesis
    by (auto simp: fresh_session_def)
qed

text \<open>
  The counterexample of C7 as stated: the unknown tag ffff while the lightshow thread 0
  runs. The pad is first set to blue, which is a second pad colour command, and the
  running lightshow is cancelled and joined.
\<close>

theorem added_unknown_counterexample:
  "actions_of playing_session (added (example_env no_binding) 2 ''ffff'' playing_session) =
     Some [UsbWrite (build_message [0x55, 0x06, 0xc0, 0x02, 2, 0, 0, 255]),
           LightshowCancelJoin 0,
           UsbWrite (build_message [0x55, 0x06, 0xc0, 0x02, 2, 255, 0, 0])]
   \<and> unjoined playing_session = [0]
   \<and> map_sum id unjoined (finish (added (example_env no_binding) 2 ''ffff'' playing_session))
       = Inr []"
  by code_simp

text \<open>
  C9 (the behaviour of the code where the claim fails). A tag whose binding has both a
  playlist and an mp3, added to a fresh session with the lights on: \<open>playPlaylist\<close>
  starts the lightshow thread 0 and \<open>playMp3\<close> then starts the thread 1, with no cancel
  and join between the two, so that both are started and neither is joined when the
  pass ends.
\<close>

theorem two_lightshows_started:
  "actions_of fresh_session
     (added (example_env (no_binding\<lparr>playlist_key := Some ''x'', mp3_key := Some ''a.mp3''\<rparr>))
        2 ''a1b2c3d4'' fresh_session) =
   Some [UsbWrite (build_message [0x55, 0x06, 0xc0, 0x02, 2, 0, 0, 255]),
         SpotifyPause, PlayerPlaylist [''/music/x/1.mp3'', ''/music/x/2.mp3''],
         LightshowStart 0 200,
         SpotifyPause, PlayerOpen ''/music/a.mp3'', PlayerPlay, LightshowStart 1 100]
   \<and> map_sum id unjoined (finish
       (added (example_env (no_binding\<lparr>playlist_key := Some ''x'', mp3_key := Some ''a.mp3''\<rparr>))
          2 ''a1b2c3d4'' fresh_session)) = Inr [0, 1]"
  by code_simp




subsection \<open>The tag globals\<close>

lemma tags_kept_refl: "tags_kept s s" by (simp add: tags_kept_def)

lemma send_nav_keys_kept: "tags_kept s (send_nav_keys ks s)"
  by (induction ks s rule: send_nav_keys.induct) (auto simp: tags_kept_def emit_def Let_def)

lemma send_nav_keys_fields:
  "base_dev (send_nav_keys ks s) = base_dev s"
  "switch_lights (send_nav_keys ks s) = switch_lights s"
  "current_tag (send_nav_keys ks s) = current_tag s"
  "previous_tag (send_nav_keys ks s) = previous_tag s"
  using send_nav_keys_kept [of s ks] by (simp_all add: tags_kept_def)

lemma playPlaylist_kept: "playPlaylist e p d sh s = Inr s' \<Longrightarrow> tags_kept s s'"
  by (auto simp: tags_kept_def playPlaylist_def base_flash_pad_def startMp3_def startLightshow_def emit_def Let_def split: sum.splits if_splits)

lemma playMp3_kept: "playMp3 e f d s = Inr s' \<Longrightarrow> tags_kept s s'"
  by (auto simp: tags_kept_def playMp3_def new_play_def stopMp3_def startMp3_def startLightshow_def emit_def Let_def split: sum.splits if_splits option.splits)

lemma field_playlist_kept: "finish (field_playlist e b d s) = Inr s' \<Longrightarrow> tags_kept s s'"
  by (auto simp: finish_def field_playlist_def lift_def tags_kept_refl playPlaylist_kept split: option.splits sum.splits outcome.splits)

lemma field_mp3_kept: "finish (field_mp3 e b d s) = Inr s' \<Longrightarrow> tags_kept s s'"
  by (auto simp: finish_def field_mp3_def lift_def tags_kept_refl playMp3_kept split: option.splits sum.splits outcome.splits)

lemma field_slack_kept: "finish (field_slack t b s) = Inr s' \<Longrightarrow> tags_kept s s'"
  by (auto simp: finish_def field_slack_def tags_kept_def emit_def split: option.splits outcome.splits)

lemma field_command_kept: "finish (field_command b s) = Inr s' \<Longrightarrow> tags_kept s s'"
  by (auto simp: finish_def field_command_def tags_kept_def emit_def split: option.splits outcome.splits)

lemma field_spotify_kept: "finish (field_spotify e b pad s) = Inr s' \<Longrightarrow> tags_kept s s'"
  by (auto simp: finish_def field_spotify_def tags_kept_def emit_def lift_def base_flash_pad_def stopMp3_def startLightshow_def Let_def split: option.splits if_splits sum.splits outcome.splits)

lemma field_disney_kept: "finish (field_disney e b pad s) = Inr s' \<Longrightarrow> tags_kept s s'"
  by (auto simp: finish_def field_disney_def tags_kept_def emit_def lift_def base_flash_pad_def base_switch_pad_def stopMp3_def switchHdmiToAppleTv_def Let_def split: option.splits if_splits sum.splits outcome.splits)

lemma field_netflix_kept: "finish (field_netflix e b pad s) = Inr s' \<Longrightarrow> tags_kept s s'"
  by (auto simp: finish_def field_netflix_def tags_kept_def emit_def lift_def base_flash_pad_def base_switch_pad_def stopMp3_def switchHdmiToAppleTv_def Let_def split: option.splits if_splits sum.splits outcome.splits)

lemma field_youtube_kept: "finish (field_youtube e b pad s) = Inr s' \<Longrightarrow> tags_kept s s'"
  by (auto simp: finish_def field_youtube_def tags_kept_def emit_def lift_def base_flash_pad_def base_switch_pad_def stopMp3_def switchHdmiToAppleTv_def Let_def split: option.splits if_splits sum.splits outcome.splits)

lemma field_airplay_kept: "finish (field_airplay e b pad s) = Inr s' \<Longrightarrow> tags_kept s s'"
  by (auto simp: finish_def field_airplay_def tags_kept_def emit_def lift_def base_flash_pad_def base_switch_pad_def stopMp3_def Let_def split: option.splits if_splits sum.splits outcome.splits)

lemma field_xbox_kept: "finish (field_xbox e b pad s) = Inr s' \<Longrightarrow> tags_kept s s'"
  by (auto simp: finish_def field_xbox_def tags_kept_def emit_def lift_def base_flash_pad_def base_switch_pad_def stopMp3_def send_nav_keys_fields Let_def split: option.splits if_splits sum.splits outcome.splits)


lemma tags_kept_stepped: "tags_kept s s' \<Longrightarrow> tags_stepped s s'"
  by (simp add: tags_kept_def tags_stepped_def)

lemma tags_stepped_trans: "tags_stepped s s1 \<Longrightarrow> tags_stepped s1 s2 \<Longrightarrow> tags_stepped s s2"
  by (auto simp: tags_stepped_def)

lemma field_spotify_off_stepped:
  "finish (field_spotify_off e b s) = Inr s' \<Longrightarrow> tags_stepped s s'"
  by (auto simp: finish_def field_spotify_off_def tags_stepped_def split: if_splits)

lemma finish_simps [simp]:
  "finish (Next s) = Inr s" "finish (Continue s) = Inr s" "finish (Raised err) = Inl err"
  by (simp_all add: finish_def)

lemma run_fields_stepped:
  assumes "\<forall>f \<in> set fs. \<forall>s1 s2. finish (f s1) = Inr s2 \<longrightarrow> tags_stepped s1 s2"
    and "finish (run_fields fs s) = Inr s'"
  shows "tags_stepped s s'"
  using assms
proof (induction fs arbitrary: s)
  case Nil
  then show ?case by (simp add: tags_stepped_def)
next
  case (Cons f fs)
  show ?case
  proof (cases "f s")
    case (Next s1)
    with Cons.prems(1) have a: "tags_stepped s s1" by simp
    from Next Cons.prems(2) have "finish (run_fields fs s1) = Inr s'" by simp
    with Cons.IH [of s1] Cons.prems(1) have "tags_stepped s1 s'" by simp
    with a show ?thesis by (rule tags_stepped_trans)
  next
    case (Continue s1)
    with Cons.prems(2) have "s1 = s'" by simp
    with Continue Cons.prems(1) show ?thesis by simp
  next
    case (Raised err)
    with Cons.prems(2) show ?thesis by simp
  qed
qed

lemma matched_fields_stepped:
  "\<forall>f \<in> set (matched_fields e tgs b mp3_dir pad).
     \<forall>s1 s2. finish (f s1) = Inr s2 \<longrightarrow> tags_stepped s1 s2"
  by (simp add: matched_fields_def field_spotify_off_stepped
      tags_kept_stepped [OF field_playlist_kept] tags_kept_stepped [OF field_mp3_kept]
      tags_kept_stepped [OF field_slack_kept] tags_kept_stepped [OF field_command_kept]
      tags_kept_stepped [OF field_spotify_kept] tags_kept_stepped [OF field_disney_kept]
      tags_kept_stepped [OF field_netflix_kept] tags_kept_stepped [OF field_youtube_kept]
      tags_kept_stepped [OF field_airplay_kept] tags_kept_stepped [OF field_xbox_kept])

lemma cancel_join_kept: "tags_kept s (cancel_join s)"
  by (simp add: tags_kept_def cancel_join_def emit_def split: option.split)

lemma base_switch_pad_kept: "base_switch_pad pad colour s = Inr s' \<Longrightarrow> tags_kept s s'"
  by (auto simp: base_switch_pad_def tags_kept_def emit_def split: sum.splits)

lemma added_tags:
  assumes "finish (added e pad identifier s) = Inr s'"
  shows "base_dev s' = base_dev s
         \<and> (\<exists>table. identifier_key (load_tags e) = Some table
              \<and> (case table identifier of
                    None \<Rightarrow> current_tag s' = current_tag s \<and> previous_tag s' = previous_tag s
                  | Some b \<Rightarrow>
                      previous_tag s' =
                        (if current_tag s = None then Some identifier else current_tag s)
                      \<and> (current_tag s' = Some identifier
                          \<or> current_tag s' = previous_tag s')
                      \<and> current_tag s' \<noteq> None \<and> previous_tag s' \<noteq> None))"
proof -
  obtain s1 where s1: "(if switch_lights s then base_switch_pad pad BLUE s else Inr s) = Inr s1"
    using assms by (auto simp: added_def finish_def split: sum.splits)
  then have k1: "tags_kept s s1"
    by (auto simp: tags_kept_refl base_switch_pad_kept split: if_splits)
  let ?s2 = "cancel_join s1"
  have k2: "tags_kept s ?s2"
    using k1 cancel_join_kept [of s1] by (simp add: tags_kept_def)
  obtain table where table: "identifier_key (load_tags e) = Some table"
    using assms s1 by (auto simp: added_def finish_def Let_def split: option.splits)
  show ?thesis
  proof (cases "table identifier")
    case None
    then have "finish (lift (base_switch_pad pad RED ?s2)) = Inr s'"
      using assms s1 table by (simp add: added_def Let_def)
    then have "base_switch_pad pad RED ?s2 = Inr s'"
      by (auto simp: finish_def lift_def split: sum.splits)
    then have "tags_kept ?s2 s'" by (rule base_switch_pad_kept)
    with k2 None table show ?thesis by (simp add: tags_kept_def)
  next
    case (Some b)
    let ?s3 = "set_tags identifier ?s2"
    let ?fs = "matched_fields e (load_tags e) b (get_mp3_dir e) pad"
    have "finish (run_fields ?fs ?s3) = Inr s'"
      using assms s1 table Some by (simp add: added_def Let_def)
    with matched_fields_stepped have st: "tags_stepped ?s3 s'"
      by (rule run_fields_stepped)
    have s3: "base_dev ?s3 = base_dev s" "current_tag ?s3 = Some identifier"
      "previous_tag ?s3 = (if current_tag s = None then Some identifier else current_tag s)"
      using k2 by (auto simp: set_tags_def tags_kept_def Let_def)
    from st s3 table Some show ?thesis by (auto simp: tags_stepped_def)
  qed
qed

lemma removed_kept: "tags_kept s (removed e identifier s)"
  by (auto simp: removed_def tags_kept_def cancel_join_def pauseMp3_def emit_def Let_def
      split: option.split)

lemma loop_body_tags:
  assumes "loop_body e rd s = Inr s'"
  shows "base_dev s' = base_dev s
         \<and> (if matched_tag (base_dev s) (Poll e rd)
             then current_tag s' \<noteq> None \<and> previous_tag s' \<noteq> None
             else current_tag s' = current_tag s \<and> previous_tag s' = previous_tag s)"
proof (cases "update_nfc (base_dev s) rd")
  case None
  with assms show ?thesis by (simp add: loop_body_def matched_tag_def)
next
  case (Some tag)
  show ?thesis
  proof (cases "tag = []")
    case True
    with Some assms show ?thesis by (simp add: loop_body_def matched_tag_def)
  next
    case False
    let ?parts = "split_colon tag"
    from assms Some False have len: "2 < length ?parts"
      by (auto simp: loop_body_def Let_def split: if_splits option.splits)
    from assms Some False obtain pad where pad: "int_of_str e (?parts ! 1) = Some pad"
      by (auto simp: loop_body_def Let_def split: if_splits option.splits)
    let ?identifier = "?parts ! 2"
    show ?thesis
    proof (cases "?parts ! 0 = ''added''")
      case True
      then have fin: "finish (added e pad ?identifier s) = Inr s'"
        using assms Some False len pad by (simp add: loop_body_def Let_def)
      from added_tags [OF fin] obtain table where
        dev: "base_dev s' = base_dev s"
        and table: "identifier_key (load_tags e) = Some table"
        and entry: "case table ?identifier of
                    None \<Rightarrow> current_tag s' = current_tag s \<and> previous_tag s' = previous_tag s
                  | Some b \<Rightarrow>
                      previous_tag s' =
                        (if current_tag s = None then Some ?identifier else current_tag s)
                      \<and> (current_tag s' = Some ?identifier
                          \<or> current_tag s' = previous_tag s')
                      \<and> current_tag s' \<noteq> None \<and> previous_tag s' \<noteq> None"
        by blast
      show ?thesis
      proof (cases "table ?identifier")
        case None
        with entry have "current_tag s' = current_tag s \<and> previous_tag s' = previous_tag s"
          by simp
        moreover have "\<not> matched_tag (base_dev s) (Poll e rd)"
          using None table Some by (simp add: matched_tag_def Let_def)
        ultimately show ?thesis using dev by simp
      next
        case (Some b)
        with entry have "current_tag s' \<noteq> None \<and> previous_tag s' \<noteq> None"
          by simp
        moreover have "matched_tag (base_dev s) (Poll e rd)"
          using Some table \<open>update_nfc (base_dev s) rd = Some tag\<close> True len pad
          by (simp add: matched_tag_def Let_def)
        ultimately show ?thesis using dev by simp
      qed
    next
      case notadded: False
      then have "s' = (if ?parts ! 0 = ''removed'' then removed e ?identifier s else s)"
        using assms Some False len pad by (simp add: loop_body_def Let_def)
      then have "tags_kept s s'" by (simp add: removed_kept tags_kept_refl)
      with notadded Some show ?thesis by (simp add: matched_tag_def tags_kept_def Let_def)
    qed
  qed
qed

lemma step_tags:
  assumes "step i s = Inr s'"
  shows "base_dev s' = base_dev s
         \<and> (if matched_tag (base_dev s) i
             then current_tag s' \<noteq> None \<and> previous_tag s' \<noteq> None
             else current_tag s' = current_tag s \<and> previous_tag s' = previous_tag s)"
proof (cases i)
  case (Poll e rd)
  with assms loop_body_tags [of e rd s s'] show ?thesis by (simp add: step_def)
next
  case (PlayerEvent state0 state1)
  with assms show ?thesis by (auto simp: step_def monitor_def matched_tag_def)
qed

lemma run_tags:
  assumes "run ins s = Inr s'"
  shows "base_dev s' = base_dev s
         \<and> (if \<exists>i \<in> set ins. matched_tag (base_dev s) i
             then current_tag s' \<noteq> None
             else current_tag s' = current_tag s)"
  using assms
proof (induction ins arbitrary: s)
  case Nil
  then show ?case by simp
next
  case (Cons i ins)
  then obtain s1 where s1: "step i s = Inr s1" and rest: "run ins s1 = Inr s'"
    by (auto split: sum.splits)
  from step_tags [OF s1] have dev: "base_dev s1 = base_dev s" by simp
  from Cons.IH [OF rest] dev have ih: "base_dev s' = base_dev s"
     "(if \<exists>i \<in> set ins. matched_tag (base_dev s) i
             then current_tag s' \<noteq> None
             else current_tag s' = current_tag s1)" by simp_all
  show ?case
  proof (cases "matched_tag (base_dev s) i")
    case True
    with step_tags [OF s1] have "current_tag s1 \<noteq> None" by simp
    with ih True show ?thesis by (auto split: if_splits)
  next
    case False
    with step_tags [OF s1] have "current_tag s1 = current_tag s" by simp
    with ih False show ?thesis by (auto split: if_splits)
  qed
qed


lemma startLego_init_tags:
  "startLego_init probe tgs = Inr s0 \<Longrightarrow> current_tag s0 = None \<and> previous_tag s0 = None"
  by (auto simp: startLego_init_def Let_def tags_kept_def dest!: base_switch_pad_kept
      split: if_splits)

text \<open>
  C8. Let \<open>s\<close> be any state that the session reaches from the start of \<open>startLego\<close> by
  passes of the loop and player events, none of which raised. Then \<open>current_tag\<close> is
  \<open>None\<close> in \<open>s\<close> exactly when no matched tag (an added event whose identifier is
  bound) has been processed so far; a further step never takes \<open>current_tag\<close> back to
  \<open>None\<close> once it is set, and changes it only when the step processes a matched tag,
  and then to an identifier; and the handling of a removed event never changes it.
\<close>

theorem current_tag_invariant:
  assumes "startLego_init probe tgs = Inr s0" and "run ins s0 = Inr s"
  shows "(current_tag s = None \<longleftrightarrow> (\<forall>i \<in> set ins. \<not> matched_tag (base_dev s0) i))
         \<and> (\<forall>i s'. step i s = Inr s' \<longrightarrow>
               (current_tag s \<noteq> None \<longrightarrow> current_tag s' \<noteq> None)
               \<and> (current_tag s' \<noteq> current_tag s \<longrightarrow>
                    matched_tag (base_dev s0) i \<and> current_tag s' \<noteq> None))
         \<and> (\<forall>e identifier. current_tag (removed e identifier s) = current_tag s)"
proof -
  have init: "current_tag s0 = None" using startLego_init_tags [OF assms(1)] by simp
  from run_tags [OF assms(2)] have dev: "base_dev s = base_dev s0"
    and cur: "if \<exists>i \<in> set ins. matched_tag (base_dev s0) i
              then current_tag s \<noteq> None else current_tag s = current_tag s0"
    by simp_all
  have first: "current_tag s = None \<longleftrightarrow> (\<forall>i \<in> set ins. \<not> matched_tag (base_dev s0) i)"
    using cur init by (auto split: if_splits)
  have second: "(current_tag s \<noteq> None \<longrightarrow> current_tag s' \<noteq> None)
               \<and> (current_tag s' \<noteq> current_tag s \<longrightarrow>
                    matched_tag (base_dev s0) i \<and> current_tag s' \<noteq> None)"
    if "step i s = Inr s'" for i s'
    using step_tags [OF that] dev by (auto split: if_splits)
  have third: "current_tag (removed e ident s) = current_tag s" for e ident
    using removed_kept [of s e ident] by (simp add: tags_kept_def)
  from first second third show ?thesis by blast
qed

text \<open>
  The witness of C8: the tag a1b2c3d4, bound to an mp3, is added and then removed.
\<close>

theorem current_tag_invariant_witness:
  "\<exists>s0 s.
     startLego_init (DeviceReady UsbDev) (example_tags (no_binding\<lparr>mp3_key := Some ''a.mp3''\<rparr>))
       = Inr s0
     \<and> run [Poll (example_env (no_binding\<lparr>mp3_key := Some ''a.mp3''\<rparr>))
               (Packet ([0x56, 0, 2, 0, 0, 0, 0, 0, 0, 0xa1, 0xb2, 0xc3, 0xd4] @ replicate 19 0)),
             Poll (example_env (no_binding\<lparr>mp3_key := Some ''a.mp3''\<rparr>))
               (Packet ([0x56, 0, 2, 0, 0, 1, 0, 0, 0, 0xa1, 0xb2, 0xc3, 0xd4] @ replicate 19 0))]
         s0 = Inr s
     \<and> current_tag s = Some ''a1b2c3d4''
     \<and> current_tag (removed (example_env no_binding) ''a1b2c3d4'' s) = current_tag s"
proof -
  let ?e = "example_env (no_binding\<lparr>mp3_key := Some ''a.mp3''\<rparr>)"
  let ?ins = "[Poll ?e
               (Packet ([0x56, 0, 2, 0, 0, 0, 0, 0, 0, 0xa1, 0xb2, 0xc3, 0xd4] @ replicate 19 0)),
             Poll ?e
               (Packet ([0x56, 0, 2, 0, 0, 1, 0, 0, 0, 0xa1, 0xb2, 0xc3, 0xd4] @ replicate 19 0))]"
  have "case startLego_init (DeviceReady UsbDev)
               (example_tags (no_binding\<lparr>mp3_key := Some ''a.mp3''\<rparr>)) of
          Inl err \<Rightarrow> False
        | Inr s0 \<Rightarrow>
            (case run ?ins s0 of
               Inl err \<Rightarrow> False
             | Inr s \<Rightarrow> current_tag s = Some ''a1b2c3d4'')"
    by code_simp
  then obtain s0 s where
    init: "startLego_init (DeviceReady UsbDev)
             (example_tags (no_binding\<lparr>mp3_key := Some ''a.mp3''\<rparr>)) = Inr s0"
    and run: "run ?ins s0 = Inr s"
    and cur: "current_tag s = Some ''a1b2c3d4''"
    by (auto split: sum.splits)
  from current_tag_invariant [OF init run]
  have "current_tag (removed (example_env no_binding) ''a1b2c3d4'' s) = current_tag s"
    by blast
  with init run cur show ?thesis by blast
qed

subsection \<open>The statements for a matched tag\<close>

lemma map_filter_append: "List.map_filter f (xs @ ys) = List.map_filter f xs @ List.map_filter f ys"
  by (simp add: List.map_filter_def)

lemma map_filter_Cons_None: "f x = None \<Longrightarrow> List.map_filter f (x # xs) = List.map_filter f xs"
  by (simp add: List.map_filter_def)

lemma map_filter_Cons_Some: "f x = Some y \<Longrightarrow> List.map_filter f (x # xs) = y # List.map_filter f xs"
  by (simp add: List.map_filter_def)

lemma map_filter_Nil: "List.map_filter f [] = []"
  by (simp add: List.map_filter_def)

lemmas mf_simps = map_filter_append map_filter_Cons_None map_filter_Cons_Some map_filter_Nil

lemma emits_refl: "emits k s s"
  by (simp add: emits_def mf_simps)

lemma field_playlist_emits: "finish (field_playlist e b d s) = Inr s' \<Longrightarrow> emits 0 s s'"
  by (auto simp: emits_def mf_simps finish_def field_playlist_def lift_def playPlaylist_def base_flash_pad_def
      startMp3_def startLightshow_def emit_def Let_def
      split: option.splits sum.splits if_splits outcome.splits)

lemma field_mp3_emits: "finish (field_mp3 e b d s) = Inr s' \<Longrightarrow> emits 1 s s'"
  by (auto simp: emits_def mf_simps finish_def field_mp3_def lift_def playMp3_def new_play_def stopMp3_def
      startMp3_def startLightshow_def emit_def Let_def
      split: option.splits sum.splits if_splits outcome.splits)

lemma field_slack_emits: "finish (field_slack t b s) = Inr s' \<Longrightarrow> emits 2 s s'"
  by (auto simp: emits_def mf_simps finish_def field_slack_def emit_def
      split: option.splits outcome.splits)

lemma field_command_emits: "finish (field_command b s) = Inr s' \<Longrightarrow> emits 3 s s'"
  by (auto simp: emits_def mf_simps finish_def field_command_def emit_def
      split: option.splits outcome.splits)

lemma field_spotify_emits: "finish (field_spotify e b pad s) = Inr s' \<Longrightarrow> emits 4 s s'"
  by (auto simp: emits_def mf_simps finish_def field_spotify_def emit_def lift_def base_flash_pad_def
      stopMp3_def startLightshow_def Let_def
      split: option.splits if_splits sum.splits outcome.splits)

lemma field_spotify_off_emits: "finish (field_spotify_off e b s) = Inr s' \<Longrightarrow> emits 4 s s'"
  by (auto simp: emits_def mf_simps finish_def field_spotify_off_def split: if_splits)

lemma field_disney_emits: "finish (field_disney e b pad s) = Inr s' \<Longrightarrow> emits 5 s s'"
  by (auto simp: emits_def mf_simps finish_def field_disney_def emit_def lift_def base_flash_pad_def
      base_switch_pad_def stopMp3_def switchHdmiToAppleTv_def Let_def
      split: option.splits if_splits sum.splits outcome.splits)

lemma field_netflix_emits: "finish (field_netflix e b pad s) = Inr s' \<Longrightarrow> emits 6 s s'"
  by (auto simp: emits_def mf_simps finish_def field_netflix_def emit_def lift_def base_flash_pad_def
      base_switch_pad_def stopMp3_def switchHdmiToAppleTv_def Let_def
      split: option.splits if_splits sum.splits outcome.splits)

lemma field_youtube_emits: "finish (field_youtube e b pad s) = Inr s' \<Longrightarrow> emits 7 s s'"
  by (auto simp: emits_def mf_simps finish_def field_youtube_def emit_def lift_def base_flash_pad_def
      base_switch_pad_def stopMp3_def switchHdmiToAppleTv_def Let_def
      split: option.splits if_splits sum.splits outcome.splits)

lemma field_airplay_emits: "finish (field_airplay e b pad s) = Inr s' \<Longrightarrow> emits 8 s s'"
  by (auto simp: emits_def mf_simps finish_def field_airplay_def emit_def lift_def base_flash_pad_def
      base_switch_pad_def stopMp3_def Let_def
      split: option.splits if_splits sum.splits outcome.splits)

lemma field_xbox_emits: "finish (field_xbox e b pad s) = Inr s' \<Longrightarrow> emits 9 s s'"
  by (auto simp: emits_def mf_simps finish_def field_xbox_def emit_def lift_def base_flash_pad_def
      base_switch_pad_def stopMp3_def nav_keys_def Let_def
      split: option.splits if_splits sum.splits outcome.splits)


lemma sorted_all_equal: "set xs \<subseteq> {k} \<Longrightarrow> sorted (xs :: nat list)"
  by (induction xs) auto

lemma run_fields_sorted:
  assumes "\<forall>(k, f) \<in> set kfs. \<forall>s1 s2. finish (f s1) = Inr s2 \<longrightarrow> emits k s1 s2"
    and "sorted (map fst kfs)"
    and "finish (run_fields (map snd kfs) s) = Inr s'"
  shows "\<exists>seg. trace s' = trace s @ seg
           \<and> sorted (List.map_filter statement_of seg)
           \<and> set (List.map_filter statement_of seg) \<subseteq> fst ` set kfs"
  using assms
proof (induction kfs arbitrary: s)
  case Nil
  then show ?case by (simp add: mf_simps)
next
  case (Cons kf kfs)
  obtain k f where kf: "kf = (k, f)" by (cases kf)
  have head: "finish (f s) = Inr s1 \<Longrightarrow> emits k s s1" for s1
    using Cons.prems(1) kf by simp
  have rest: "\<forall>(k, f) \<in> set kfs. \<forall>s1 s2. finish (f s1) = Inr s2 \<longrightarrow> emits k s1 s2"
    using Cons.prems(1) by simp
  have sorted_rest: "sorted (map fst kfs)" and least: "\<forall>r \<in> fst ` set kfs. k \<le> r"
    using Cons.prems(2) kf by auto
  show ?case
  proof (cases "f s")
    case (Next s1)
    then have "emits k s s1" using head by simp
    then obtain seg1 where seg1: "trace s1 = trace s @ seg1"
      "set (List.map_filter statement_of seg1) \<subseteq> {k}"
      by (auto simp: emits_def)
    from Next Cons.prems(3) kf have "finish (run_fields (map snd kfs) s1) = Inr s'" by simp
    from Cons.IH [OF rest sorted_rest this] obtain seg2 where seg2:
      "trace s' = trace s1 @ seg2" "sorted (List.map_filter statement_of seg2)"
      "set (List.map_filter statement_of seg2) \<subseteq> fst ` set kfs"
      by blast
    have "trace s' = trace s @ (seg1 @ seg2)" using seg1(1) seg2(1) by simp
    moreover have "sorted (List.map_filter statement_of (seg1 @ seg2))"
      using seg1(2) seg2(2,3) least sorted_all_equal [OF seg1(2)]
      by (auto simp: mf_simps sorted_append)
    moreover have "set (List.map_filter statement_of (seg1 @ seg2)) \<subseteq> fst ` set (kf # kfs)"
      using seg1(2) seg2(3) kf by (auto simp: mf_simps)
    ultimately show ?thesis by blast
  next
    case (Continue s1)
    with Cons.prems(3) kf have "s1 = s'" by simp
    with Continue head have "emits k s s'" by simp
    then obtain seg1 where seg1: "trace s' = trace s @ seg1"
      "set (List.map_filter statement_of seg1) \<subseteq> {k}"
      by (auto simp: emits_def)
    moreover have "sorted (List.map_filter statement_of seg1)"
      using sorted_all_equal [OF seg1(2)] .
    moreover have "set (List.map_filter statement_of seg1) \<subseteq> fst ` set (kf # kfs)"
      using seg1(2) kf by auto
    ultimately show ?thesis by blast
  next
    case (Raised err)
    with Cons.prems(3) kf show ?thesis by simp
  qed
qed

lemma matched_fields_numbered:
  "matched_fields e tgs b mp3_dir pad = map snd (numbered_fields e tgs b mp3_dir pad)"
  by (simp add: matched_fields_def numbered_fields_def)

lemma numbered_fields_emit:
  "\<forall>(k, f) \<in> set (numbered_fields e tgs b mp3_dir pad).
     \<forall>s1 s2. finish (f s1) = Inr s2 \<longrightarrow> emits k s1 s2"
  by (simp add: numbered_fields_def field_playlist_emits
      field_mp3_emits [unfolded One_nat_def] field_slack_emits
      field_command_emits field_spotify_emits field_spotify_off_emits field_disney_emits
      field_netflix_emits field_youtube_emits field_airplay_emits field_xbox_emits)

lemma numbered_fields_sorted: "sorted (map fst (numbered_fields e tgs b mp3_dir pad))"
  by (simp add: numbered_fields_def)

lemma matched_fields_sorted:
  assumes "finish (run_fields (matched_fields e tgs b mp3_dir pad) s) = Inr s'"
  shows "\<exists>seg. trace s' = trace s @ seg \<and> sorted (List.map_filter statement_of seg)"
proof -
  from assms have "finish (run_fields (map snd (numbered_fields e tgs b mp3_dir pad)) s) = Inr s'"
    by (simp only: matched_fields_numbered)
  from run_fields_sorted [OF numbered_fields_emit numbered_fields_sorted this]
  show ?thesis by blast
qed

lemma prelude_trace:
  assumes "(if switch_lights s then base_switch_pad pad BLUE s else Inr s) = Inr s1"
  shows "\<exists>pre. trace (set_tags identifier (cancel_join s1)) = trace s @ pre
           \<and> trace (cancel_join s1) = trace s @ pre
           \<and> List.map_filter statement_of pre = []"
  using assms
  by (auto simp: base_switch_pad_def set_tags_def cancel_join_def emit_def Let_def mf_simps
      split: if_splits sum.splits option.splits)

text \<open>
  C6 (as amended). For every added event whose pass does not raise, the calls that the
  statements for the binding make appear in the trace in the order of the statements in
  the source: the local playlist first, then the local mp3, then the notification, the
  operator command, the streaming service, the three deep links (disney, netflix,
  youtube), the speaker streaming and the game console. No call of an earlier statement
  comes after a call of a later one.
\<close>

theorem added_order:
  assumes "finish (added e pad identifier s) = Inr s'"
  shows "\<exists>seg. trace s' = trace s @ seg \<and> sorted (List.map_filter statement_of seg)"
proof -
  obtain s1 where s1: "(if switch_lights s then base_switch_pad pad BLUE s else Inr s) = Inr s1"
    using assms by (auto simp: added_def finish_def split: sum.splits)
  let ?s2 = "cancel_join s1"
  from prelude_trace [OF s1, of "identifier"] obtain pre where
    pre: "trace (set_tags identifier ?s2) = trace s @ pre" "trace ?s2 = trace s @ pre"
      "List.map_filter statement_of pre = []"
    by blast
  obtain table where table: "identifier_key (load_tags e) = Some table"
    using assms s1 by (auto simp: added_def finish_def Let_def split: option.splits)
  show ?thesis
  proof (cases "table identifier")
    case None
    then have "finish (lift (base_switch_pad pad RED ?s2)) = Inr s'"
      using assms s1 table by (simp add: added_def Let_def)
    then obtain m where "trace s' = trace ?s2 @ [UsbWrite m]"
      by (auto simp: finish_def lift_def base_switch_pad_def emit_def split: sum.splits)
    then have "trace s' = trace s @ (pre @ [UsbWrite m])" using pre(2) by simp
    moreover have "sorted (List.map_filter statement_of (pre @ [UsbWrite m]))"
      using pre(3) by (simp add: mf_simps)
    ultimately show ?thesis by blast
  next
    case (Some b)
    let ?fs = "matched_fields e (load_tags e) b (get_mp3_dir e) pad"
    have "finish (run_fields ?fs (set_tags identifier ?s2)) = Inr s'"
      using assms s1 table Some by (simp add: added_def Let_def)
    from matched_fields_sorted [OF this] obtain seg where
      seg: "trace s' = trace (set_tags identifier ?s2) @ seg"
        "sorted (List.map_filter statement_of seg)"
      by blast
    have "trace s' = trace s @ (pre @ seg)" using seg(1) pre(1) by simp
    moreover have "sorted (List.map_filter statement_of (pre @ seg))"
      using pre(3) seg(2) by (simp add: mf_simps)
    ultimately show ?thesis by blast
  qed
qed

text \<open>
  The witness of C6: a tag whose binding has every key, added while another tag is
  current. Each of the ten statements makes its call, in the order 0 to 9.
\<close>

theorem added_order_witness:
  "\<exists>s'. finish (added (example_env full_binding) 2 ''a1b2c3d4'' playing_session) = Inr s'
      \<and> List.map_filter statement_of (drop (length (trace playing_session)) (trace s'))
          = [0, 1, 2, 3, 4, 5, 6, 7, 8, 9]
      \<and> (\<exists>seg. trace s' = trace playing_session @ seg
                \<and> sorted (List.map_filter statement_of seg))"
proof -
  have "case finish (added (example_env full_binding) 2 ''a1b2c3d4'' playing_session) of
          Inl err \<Rightarrow> False
        | Inr s' \<Rightarrow>
            List.map_filter statement_of (drop (length (trace playing_session)) (trace s'))
              = [0, 1, 2, 3, 4, 5, 6, 7, 8, 9]"
    by code_simp
  then obtain s' where
    fin: "finish (added (example_env full_binding) 2 ''a1b2c3d4'' playing_session) = Inr s'"
    and calls: "List.map_filter statement_of (drop (length (trace playing_session)) (trace s'))
              = [0, 1, 2, 3, 4, 5, 6, 7, 8, 9]"
    by (auto split: sum.splits)
  from added_order [OF fin] fin calls show ?thesis by blast
qed

text \<open>
  The counterexample of C6 as stated: for a binding with a playlist and an mp3 the
  playlist is played before the mp3, so in the numbering of the specification, which
  puts the mp3 first, the calls are out of order.
\<close>

theorem added_order_counterexample:
  "map_option (List.map_filter spec_statement_of)
     (actions_of fresh_session
        (added (example_env (no_binding\<lparr>playlist_key := Some ''x'', mp3_key := Some ''a.mp3''\<rparr>))
           2 ''a1b2c3d4'' fresh_session)) = Some [1, 0]
   \<and> \<not> sorted [1, 0 :: nat]"
proof -
  have "map_option (List.map_filter spec_statement_of)
     (actions_of fresh_session
        (added (example_env (no_binding\<lparr>playlist_key := Some ''x'', mp3_key := Some ''a.mp3''\<rparr>))
           2 ''a1b2c3d4'' fresh_session)) = Some [1, 0]"
    by code_simp
  then show ?thesis by simp
qed


lemma emits_grows: "emits k s s' \<Longrightarrow> prefix (trace s) (trace s')"
  by (auto simp: emits_def)

lemma matched_fields_grow:
  "\<forall>f \<in> set (matched_fields e tgs b mp3_dir pad).
     \<forall>s1 s2. finish (f s1) = Inr s2 \<longrightarrow> prefix (trace s1) (trace s2)"
  by (simp add: matched_fields_def
      emits_grows [OF field_playlist_emits] emits_grows [OF field_mp3_emits]
      emits_grows [OF field_slack_emits] emits_grows [OF field_command_emits]
      emits_grows [OF field_spotify_emits] emits_grows [OF field_spotify_off_emits]
      emits_grows [OF field_disney_emits] emits_grows [OF field_netflix_emits]
      emits_grows [OF field_youtube_emits] emits_grows [OF field_airplay_emits]
      emits_grows [OF field_xbox_emits])

lemma run_fields_grows:
  assumes "\<forall>f \<in> set fs. \<forall>s1 s2. finish (f s1) = Inr s2 \<longrightarrow> prefix (trace s1) (trace s2)"
    and "finish (run_fields fs s) = Inr s'"
  shows "prefix (trace s) (trace s')"
  using assms
proof (induction fs arbitrary: s)
  case Nil
  then show ?case by simp
next
  case (Cons f fs)
  show ?case
  proof (cases "f s")
    case (Next s1)
    with Cons.prems(1) have p1: "prefix (trace s) (trace s1)" by simp
    from Next Cons.prems(2) have "finish (run_fields fs s1) = Inr s'" by simp
    with Cons.IH [of s1] Cons.prems(1) have "prefix (trace s1) (trace s')" by simp
    with p1 show ?thesis by (rule prefix_order.trans)
  next
    case (Continue s1)
    with Cons.prems(2) have "s1 = s'" by simp
    with Continue Cons.prems(1) show ?thesis by simp
  next
    case (Raised err)
    with Cons.prems(2) show ?thesis by simp
  qed
qed

lemma run_fields_fires:
  assumes "\<forall>f \<in> set fs. \<forall>s1 s2. finish (f s1) = Inr s2 \<longrightarrow> prefix (trace s1) (trace s2)"
    and "run_fields fs s = Next s'"
    and "f \<in> set fs"
    and "\<forall>s1 s2. f s1 = Next s2 \<longrightarrow> a \<in> set (drop (length (trace s1)) (trace s2))"
  shows "a \<in> set (drop (length (trace s)) (trace s'))"
  using assms(1,2,3)
proof (induction fs arbitrary: s)
  case Nil
  then show ?case by simp
next
  case (Cons g gs)
  from Cons.prems(2) obtain s1 where g: "g s = Next s1" and rest: "run_fields gs s1 = Next s'"
    by (auto split: outcome.splits)
  from g Cons.prems(1) have "prefix (trace s) (trace s1)" by simp
  then obtain seg1 where seg1: "trace s1 = trace s @ seg1" by (rule prefixE)
  have grow: "\<forall>f \<in> set gs. \<forall>s1 s2. finish (f s1) = Inr s2 \<longrightarrow> prefix (trace s1) (trace s2)"
    using Cons.prems(1) by simp
  from rest have "finish (run_fields gs s1) = Inr s'" by simp
  from run_fields_grows [OF grow this] obtain seg2 where seg2: "trace s' = trace s1 @ seg2"
    by (rule prefixE)
  have new: "drop (length (trace s)) (trace s') = seg1 @ seg2" using seg1 seg2 by simp
  show ?case
  proof (cases "f = g")
    case True
    with g assms(4) have "a \<in> set (drop (length (trace s)) (trace s1))" by simp
    then have "a \<in> set seg1" using seg1 by simp
    then show ?thesis using new by simp
  next
    case False
    with Cons.prems(3) have "f \<in> set gs" by simp
    from Cons.IH [OF grow rest this] have "a \<in> set (drop (length (trace s1)) (trace s'))" .
    then have "a \<in> set seg2" using seg2 by simp
    then show ?thesis using new by simp
  qed
qed

lemma field_playlist_fires:
  "playlist_key b = Some x \<Longrightarrow> field_playlist e b d s = Next s' \<Longrightarrow>
   (if glob_glob e (d @ ''/'' @ x @ ''/*.mp3'') = []
    then UsbWrite (build_message [0x55, 0x09, 0xc3, 0x03, 0, 10, 10, 3, 255, 165, 0])
    else PlayerPlaylist (if shuffle_key b
                         then random_shuffle e (glob_glob e (d @ ''/'' @ x @ ''/*.mp3''))
                         else glob_glob e (d @ ''/'' @ x @ ''/*.mp3'')))
   \<in> set (drop (length (trace s)) (trace s'))"
  by (auto simp: field_playlist_def lift_def playPlaylist_def base_flash_pad_def flash_pad_def
      send_command_def ORANGE_def
      startMp3_def startLightshow_def emit_def Let_def
      split: option.splits sum.splits if_splits)

lemma field_mp3_fires:
  "mp3_key b = Some x \<Longrightarrow> field_mp3 e b d s = Next s' \<Longrightarrow>
   PlayerPlay \<in> set (drop (length (trace s)) (trace s'))"
  by (auto simp: field_mp3_def lift_def playMp3_def new_play_def stopMp3_def
      startMp3_def startLightshow_def emit_def Let_def
      split: option.splits sum.splits if_splits)

lemma field_slack_fires:
  "slack_key b = Some x \<Longrightarrow> field_slack t b s = Next s' \<Longrightarrow>
   (\<exists>hook. slack_hook_key t = Some hook) \<and>
   WebhookPost (the (slack_hook_key t)) x \<in> set (drop (length (trace s)) (trace s'))"
  by (auto simp: field_slack_def emit_def split: option.splits)

lemma field_command_fires:
  "command_key b = Some x \<Longrightarrow> field_command b s = Next s' \<Longrightarrow>
   SubprocessRun x \<in> set (drop (length (trace s)) (trace s'))"
  by (auto simp: field_command_def emit_def split: option.splits)

lemma field_spotify_fires:
  "spotify_key b = Some x \<Longrightarrow> spotify_activated e \<Longrightarrow> field_spotify e b pad s = Next s' \<Longrightarrow>
   SpotifySpotcast x (case position_ms_key b of Some n \<Rightarrow> n | None \<Rightarrow> 0)
     \<in> set (drop (length (trace s)) (trace s'))"
  by (auto simp: field_spotify_def emit_def lift_def base_flash_pad_def
      stopMp3_def startLightshow_def Let_def
      split: option.splits if_splits sum.splits)

lemma field_disney_fires:
  "disney_key b = Some x \<Longrightarrow> field_disney e b pad s = Next s' \<Longrightarrow>
   AppletvLaunchDisney x \<in> set (drop (length (trace s)) (trace s'))"
  by (auto simp: field_disney_def emit_def lift_def base_flash_pad_def appletv_activated_def
      base_switch_pad_def stopMp3_def switchHdmiToAppleTv_def Let_def
      split: option.splits if_splits sum.splits)

lemma field_netflix_fires:
  "netflix_key b = Some x \<Longrightarrow> field_netflix e b pad s = Next s' \<Longrightarrow>
   AppletvLaunchNetflix x \<in> set (drop (length (trace s)) (trace s'))"
  by (auto simp: field_netflix_def emit_def lift_def base_flash_pad_def appletv_activated_def
      base_switch_pad_def stopMp3_def switchHdmiToAppleTv_def Let_def
      split: option.splits if_splits sum.splits)

lemma field_youtube_fires:
  "youtube_key b = Some x \<Longrightarrow> field_youtube e b pad s = Next s' \<Longrightarrow>
   AppletvLaunchYoutube x \<in> set (drop (length (trace s)) (trace s'))"
  by (auto simp: field_youtube_def emit_def lift_def base_flash_pad_def appletv_activated_def
      base_switch_pad_def stopMp3_def switchHdmiToAppleTv_def Let_def
      split: option.splits if_splits sum.splits)

lemma field_airplay_fires:
  "airplay_key b = Some x \<Longrightarrow> field_airplay e b pad s = Next s' \<Longrightarrow>
   HomepodStreamFile x (homepod_key b) \<in> set (drop (length (trace s)) (trace s'))"
  by (auto simp: field_airplay_def emit_def lift_def base_flash_pad_def
      base_switch_pad_def stopMp3_def Let_def
      split: option.splits if_splits sum.splits)

lemma field_xbox_fires:
  "xbox_key b \<Longrightarrow> field_xbox e b pad s = Next s' \<Longrightarrow>
   XboxctlSyncPowerOn \<in> set (drop (length (trace s)) (trace s'))"
  by (auto simp: field_xbox_def emit_def lift_def base_flash_pad_def
      base_switch_pad_def stopMp3_def nav_keys_def Let_def
      split: option.splits if_splits sum.splits)


lemma run_fields_reaches:
  "run_fields fs s = Next s' \<Longrightarrow> f \<in> set fs \<Longrightarrow> \<exists>s1 s2. f s1 = Next s2"
proof (induction fs arbitrary: s)
  case Nil
  then show ?case by simp
next
  case (Cons g gs)
  from Cons.prems(1) obtain s1 where g: "g s = Next s1" and rest: "run_fields gs s1 = Next s'"
    by (auto split: outcome.splits)
  show ?case
  proof (cases "f = g")
    case True
    with g show ?thesis by blast
  next
    case False
    with Cons.prems(2) have "f \<in> set gs" by simp
    from Cons.IH [OF rest this] show ?thesis .
  qed
qed

lemma field_slack_hook:
  "slack_key b = Some x \<Longrightarrow> field_slack t b s = Next s' \<Longrightarrow> \<exists>hook. slack_hook_key t = Some hook"
  by (auto simp: field_slack_def split: option.splits)

text \<open>
  The passes that run through all the statements for the binding (no exception, and
  no \<open>continue\<close>): every key present in the binding has its call among the actions of
  the pass, the streaming service when \<open>spotify.activated()\<close> holds.
\<close>

lemma added_fires:
  assumes "added e pad identifier s = Next s'"
    and "identifier_key (load_tags e) = Some table" and "table identifier = Some b"
  shows
    "let new = drop (length (trace s)) (trace s');
         mp3_dir = get_mp3_dir e
     in (\<forall>x. playlist_key b = Some x \<longrightarrow>
           (if glob_glob e (mp3_dir @ ''/'' @ x @ ''/*.mp3'') = []
            then UsbWrite (build_message [0x55, 0x09, 0xc3, 0x03, 0, 10, 10, 3, 255, 165, 0])
            else PlayerPlaylist
                   (if shuffle_key b
                    then random_shuffle e (glob_glob e (mp3_dir @ ''/'' @ x @ ''/*.mp3''))
                    else glob_glob e (mp3_dir @ ''/'' @ x @ ''/*.mp3'')))
           \<in> set new)
      \<and> (\<forall>x. mp3_key b = Some x \<longrightarrow> PlayerPlay \<in> set new)
      \<and> (\<forall>x. slack_key b = Some x \<longrightarrow>
            (\<exists>hook. slack_hook_key (load_tags e) = Some hook \<and> WebhookPost hook x \<in> set new))
      \<and> (\<forall>x. command_key b = Some x \<longrightarrow> SubprocessRun x \<in> set new)
      \<and> (\<forall>x. spotify_key b = Some x \<and> spotify_activated e \<longrightarrow>
            SpotifySpotcast x (case position_ms_key b of Some n \<Rightarrow> n | None \<Rightarrow> 0) \<in> set new)
      \<and> (\<forall>x. disney_key b = Some x \<longrightarrow> AppletvLaunchDisney x \<in> set new)
      \<and> (\<forall>x. netflix_key b = Some x \<longrightarrow> AppletvLaunchNetflix x \<in> set new)
      \<and> (\<forall>x. youtube_key b = Some x \<longrightarrow> AppletvLaunchYoutube x \<in> set new)
      \<and> (\<forall>x. airplay_key b = Some x \<longrightarrow> HomepodStreamFile x (homepod_key b) \<in> set new)
      \<and> (xbox_key b \<longrightarrow> XboxctlSyncPowerOn \<in> set new)"
proof -
  obtain s1 where s1: "(if switch_lights s then base_switch_pad pad BLUE s else Inr s) = Inr s1"
    using assms(1) by (auto simp: added_def split: sum.splits)
  let ?s3 = "set_tags identifier (cancel_join s1)"
  let ?d = "get_mp3_dir e"
  let ?fs = "matched_fields e (load_tags e) b ?d pad"
  let ?new3 = "drop (length (trace ?s3)) (trace s')"
  let ?new = "drop (length (trace s)) (trace s')"
  have run: "run_fields ?fs ?s3 = Next s'"
    using assms s1 by (simp add: added_def Let_def)
  from prelude_trace [OF s1, of "identifier"] obtain pre where
    pre: "trace ?s3 = trace s @ pre" by blast
  from run have "finish (run_fields ?fs ?s3) = Inr s'" by simp
  from run_fields_grows [OF matched_fields_grow this] obtain seg where
    seg: "trace s' = trace ?s3 @ seg" by (rule prefixE)
  have sub: "a \<in> set ?new3 \<Longrightarrow> a \<in> set ?new" for a
    using pre seg by simp
  note fires = run_fields_fires [OF matched_fields_grow run, THEN sub]
  have playlist: "(if glob_glob e (?d @ ''/'' @ x @ ''/*.mp3'') = []
            then UsbWrite (build_message [0x55, 0x09, 0xc3, 0x03, 0, 10, 10, 3, 255, 165, 0])
            else PlayerPlaylist
                   (if shuffle_key b
                    then random_shuffle e (glob_glob e (?d @ ''/'' @ x @ ''/*.mp3''))
                    else glob_glob e (?d @ ''/'' @ x @ ''/*.mp3'')))
           \<in> set ?new" if "playlist_key b = Some x" for x
  proof (rule fires [of "field_playlist e b ?d"])
    show "field_playlist e b ?d \<in> set ?fs" by (simp add: matched_fields_def)
    show "\<forall>s1 s2. field_playlist e b ?d s1 = Next s2 \<longrightarrow>
            (if glob_glob e (?d @ ''/'' @ x @ ''/*.mp3'') = []
             then UsbWrite (build_message [0x55, 0x09, 0xc3, 0x03, 0, 10, 10, 3, 255, 165, 0])
             else PlayerPlaylist
                   (if shuffle_key b
                    then random_shuffle e (glob_glob e (?d @ ''/'' @ x @ ''/*.mp3''))
                    else glob_glob e (?d @ ''/'' @ x @ ''/*.mp3'')))
            \<in> set (drop (length (trace s1)) (trace s2))"
      using field_playlist_fires [OF that] by blast
  qed
  have mp3: "PlayerPlay \<in> set ?new" if "mp3_key b = Some x" for x
    by (rule fires [of "field_mp3 e b ?d"])
      (simp_all add: matched_fields_def field_mp3_fires [OF that])
  have slack: "\<exists>hook. slack_hook_key (load_tags e) = Some hook \<and> WebhookPost hook x \<in> set ?new"
    if "slack_key b = Some x" for x
  proof -
    have "field_slack (load_tags e) b \<in> set ?fs" by (simp add: matched_fields_def)
    from run_fields_reaches [OF run this] obtain t1 t2 where
      "field_slack (load_tags e) b t1 = Next t2" by blast
    from field_slack_hook [OF that this] obtain hook where
      hook: "slack_hook_key (load_tags e) = Some hook" by blast
    have "WebhookPost (the (slack_hook_key (load_tags e))) x \<in> set ?new"
      by (rule fires [of "field_slack (load_tags e) b"])
        (simp_all add: matched_fields_def field_slack_fires [OF that])
    with hook show ?thesis by simp
  qed
  have command: "SubprocessRun x \<in> set ?new" if "command_key b = Some x" for x
    by (rule fires [of "field_command b"])
      (simp_all add: matched_fields_def field_command_fires [OF that])
  have spotify: "SpotifySpotcast x (case position_ms_key b of Some n \<Rightarrow> n | None \<Rightarrow> 0)
                   \<in> set ?new"
    if "spotify_key b = Some x" and "spotify_activated e" for x
    by (rule fires [of "field_spotify e b pad"])
      (simp_all add: matched_fields_def field_spotify_fires [OF that])
  have disney: "AppletvLaunchDisney x \<in> set ?new" if "disney_key b = Some x" for x
    by (rule fires [of "field_disney e b pad"])
      (simp_all add: matched_fields_def field_disney_fires [OF that])
  have netflix: "AppletvLaunchNetflix x \<in> set ?new" if "netflix_key b = Some x" for x
    by (rule fires [of "field_netflix e b pad"])
      (simp_all add: matched_fields_def field_netflix_fires [OF that])
  have youtube: "AppletvLaunchYoutube x \<in> set ?new" if "youtube_key b = Some x" for x
    by (rule fires [of "field_youtube e b pad"])
      (simp_all add: matched_fields_def field_youtube_fires [OF that])
  have airplay: "HomepodStreamFile x (homepod_key b) \<in> set ?new"
    if "airplay_key b = Some x" for x
    by (rule fires [of "field_airplay e b pad"])
      (simp_all add: matched_fields_def field_airplay_fires [OF that])
  have xbox: "XboxctlSyncPowerOn \<in> set ?new" if "xbox_key b"
    by (rule fires [of "field_xbox e b pad"])
      (simp_all add: matched_fields_def field_xbox_fires [OF that])
  from playlist mp3 slack command spotify disney netflix youtube airplay xbox
  show ?thesis unfolding Let_def by blast
qed


text \<open>
  An instance: the binding with every key, added while another tag is current.
\<close>

lemma added_fires_full_binding:
  "\<exists>s'. added (example_env full_binding) 2 ''a1b2c3d4'' playing_session = Next s'
      \<and> {PlayerPlaylist [''/music/x/2.mp3'', ''/music/x/1.mp3''], PlayerPlay,
          WebhookPost ''hook'' ''hello'', SubprocessRun ''true'', SpotifySpotcast ''uri'' 3,
          AppletvLaunchDisney ''d'', AppletvLaunchNetflix ''n'', AppletvLaunchYoutube ''y'',
          HomepodStreamFile ''f.mp3'' (Some ''kitchen''), XboxctlSyncPowerOn}
         \<subseteq> set (drop (length (trace playing_session)) (trace s'))"
proof -
  have "case added (example_env full_binding) 2 ''a1b2c3d4'' playing_session of
          Next s' \<Rightarrow> True | Continue s' \<Rightarrow> False | Raised err \<Rightarrow> False"
    by code_simp
  then obtain s' where
    nxt: "added (example_env full_binding) 2 ''a1b2c3d4'' playing_session = Next s'"
    by (auto split: outcome.splits)
  have tab: "identifier_key (load_tags (example_env full_binding)) =
               Some (\<lambda>i. if i = ''a1b2c3d4'' then Some full_binding else None)"
    by (simp add: example_env_def example_tags_def)
  have ent: "(\<lambda>i. if i = ''a1b2c3d4'' then Some full_binding else None) ''a1b2c3d4''
               = Some full_binding"
    by simp
  have keys: "playlist_key full_binding = Some ''x''" "shuffle_key full_binding"
    "mp3_key full_binding = Some ''a.mp3''" "slack_key full_binding = Some ''hello''"
    "command_key full_binding = Some ''true''" "spotify_key full_binding = Some ''uri''"
    "position_ms_key full_binding = Some 3" "disney_key full_binding = Some ''d''"
    "netflix_key full_binding = Some ''n''" "youtube_key full_binding = Some ''y''"
    "airplay_key full_binding = Some ''f.mp3''" "homepod_key full_binding = Some ''kitchen''"
    "xbox_key full_binding"
    by (simp_all add: full_binding_def)
  have env: "spotify_activated (example_env full_binding)"
    "slack_hook_key (load_tags (example_env full_binding)) = Some ''hook''"
    "glob_glob (example_env full_binding) = (\<lambda>pattern. [''/music/x/1.mp3'', ''/music/x/2.mp3''])"
    "random_shuffle (example_env full_binding) = rev"
    by (simp_all add: example_env_def example_tags_def)
  from added_fires [OF nxt tab ent] nxt show ?thesis
    by (simp add: Let_def keys env)
qed

text \<open>
  With the key \<open>spotify\<close> present and \<open>spotify.activated()\<close> false the pass makes no
  call for the key: its only action is the blue pad.
\<close>

lemma spotify_not_activated_example:
  "actions_of fresh_session
     (added ((example_env (no_binding\<lparr>spotify_key := Some ''uri''\<rparr>))\<lparr>spotify_activated := False\<rparr>)
        2 ''a1b2c3d4'' fresh_session) =
   Some [UsbWrite (build_message [0x55, 0x06, 0xc0, 0x02, 2, 0, 0, 255])]"
  by code_simp

text \<open>
  C5 (the behaviour of the code where the claim fails). The binding has the keys
  \<open>spotify\<close> and \<open>xbox\<close>, and the streaming service is activated. When the tag is the
  first ever added, \<open>previous_tag\<close> and \<open>current_tag\<close> are both set to it, the streaming
  service is resumed, and \<open>continue\<close> ends the pass before the statement for \<open>xbox\<close>; the
  same happens when the tag is added again while it is the current tag. When another
  tag is current, the streaming service is started with \<open>spotcast\<close> and control falls
  through to the statement for \<open>xbox\<close>, which powers the console on.
\<close>

theorem spotify_resume_skips_later_fields:
  "added (example_env (no_binding\<lparr>spotify_key := Some ''uri'', xbox_key := True\<rparr>))
        2 ''a1b2c3d4'' fresh_session
   = Continue (fresh_session
       \<lparr>current_tag := Some ''a1b2c3d4'', previous_tag := Some ''a1b2c3d4'',
        lightshowThread := Some 0, threads_created := 1, unjoined := [0],
        trace := [UsbWrite (build_message [0x55, 0x06, 0xc0, 0x02, 2, 0, 0, 255]),
                  SpotifyResume, LightshowStart 0 5]\<rparr>)
   \<and> actions_of (paused_session 40)
        (added (example_env (no_binding\<lparr>spotify_key := Some ''uri'', xbox_key := True\<rparr>))
           2 ''a1b2c3d4'' (paused_session 40))
       = Some [UsbWrite (build_message [0x55, 0x06, 0xc0, 0x02, 2, 0, 0, 255]),
               LightshowCancelJoin 0, SpotifyResume, LightshowStart 1 5]
   \<and> actions_of playing_session
        (added (example_env (no_binding\<lparr>spotify_key := Some ''uri'', xbox_key := True\<rparr>))
           2 ''a1b2c3d4'' playing_session)
       = Some [UsbWrite (build_message [0x55, 0x06, 0xc0, 0x02, 2, 0, 0, 255]),
               LightshowCancelJoin 0, SpotifySpotcast ''uri'' 0, LightshowStart 1 7,
               XboxctlLoadConfig, SamsungtvLoadConfig, XboxctlSyncPowerOn,
               UsbWrite (build_message [0x55, 0x06, 0xc0, 0x02, 2, 128, 128, 0])]"
  by code_simp

end
